theory Spec2Isabelle
  imports Complex_Main
begin

section \<open>Data model\<close>

text \<open>
  The client is browser JavaScript: module-level variables (the position store of
  \<^verbatim>\<open>map_data.js\<close>, \<^verbatim>\<open>hasInitialFix\<close> of \<^verbatim>\<open>geolocation.js\<close>, the two feature arrays
  of \<^verbatim>\<open>map_utils.js\<close>) mutated by event handlers that run to completion one at a
  time. The model is one record of all of these variables, and every source function is a
  function from the state to the new state, together with the calls it makes on the user
  interface and the network.

  Numbers are JavaScript doubles. The code only compares them with the constant 150 and
  takes a maximum with the constant 16, which is exact on doubles, so they are reals here.
\<close>

type_synonym lonlat = "real \<times> real"

text \<open>
  \<^verbatim>\<open>ol.proj.fromLonLat([lon, lat])\<close> projects to EPSG:3857. The projection is injective
  and the code never computes with its result, so a projected coordinate is represented
  by the longitude and latitude it is the image of.
\<close>

datatype coordinate = Projected real real

definition fromLonLat :: "lonlat \<Rightarrow> coordinate" where
  "fromLonLat p = Projected (fst p) (snd p)"

text \<open>\<^verbatim>\<open>pos.coords\<close> of a sensor callback.\<close>

record position =
  latitude :: real
  longitude :: real
  accuracy :: real

text \<open>
  The follow flag is written with \<^verbatim>\<open>false\<close>, with \<^verbatim>\<open>!isFollowing()\<close> and, in
  \<^verbatim>\<open>startWatching\<close>, with the global \<^verbatim>\<open>FontFaceSetLoadEvent\<close>, the constructor
  function of a browser interface. It is always read for its truthiness.
\<close>

datatype js_value = JSBool bool | JSFunction

fun truthy :: "js_value \<Rightarrow> bool" where
  "truthy (JSBool b) = b"
| "truthy JSFunction = True"

definition FontFaceSetLoadEvent :: js_value where
  "FontFaceSetLoadEvent = JSFunction"

text \<open>
  The identifier \<^verbatim>\<open>navigator.geolocation.watchPosition\<close> returns: an unsigned long
  greater than zero, so a stored handle is truthy and only \<^verbatim>\<open>null\<close> is falsy.
\<close>

datatype watch_handle = WatchHandle nat

record map_view =
  center :: coordinate
  zoom :: real

text \<open>
  A feature of the GeoJSON response, reduced to what the code inspects: the tag
  \<^verbatim>\<open>properties?.feature_type\<close> and the geometry. \<open>GUnreadable\<close> is a geometry object
  without a \<^verbatim>\<open>coordinates\<close> member that the OpenLayers reader rejects.
\<close>

datatype gj_geometry = GLineString "lonlat list" | GPoint lonlat | GUnreadable

record gj_feature =
  feature_type :: "string option"
  geometry :: "gj_geometry option"

record geojson =
  features :: "gj_feature list option"

datatype feature_kind =
  PositionMarker | AccuracyCircle | RouteLine | OriginMarker | DestinationMarker
  | TrafficSegment | Incident

datatype ol_geometry =
  PointGeom coordinate
  | CircleGeom coordinate real
  | FromGeoJSON gj_feature
  | NullGeometry

text \<open>
  An \<^verbatim>\<open>ol.Feature\<close> object. Styles are presentation only and are left out.
\<close>

record ol_feature =
  kind :: feature_kind
  geom :: ol_geometry

datatype gps_status =
  MapNotInitialised
  | InitialFix real
  | LowPrecision real
  | GpsActive real bool
  | GeolocationUnsupported
  | AlreadyActive
  | FollowOffByDrag
  | TrackingOff
  | FollowOn
  | FollowOff
  | MapCentred
  | NoPositionToCentre
  | PermissionDenied
  | SignalUnavailable

datatype severity = Info | Error | Success

datatype message =
  CalculatingRoute
  | CalculatingRouteByCoordinates
  | GpsImprecise real
  | OriginFromGps
  | GpsUnavailable
  | ServerUrlUndefined
  | RouteAccessDenied
  | RouteFailed
  | RouteCalculated
  | ConnectionError

record constraints =
  avoid_tags :: "string list"
  prefer_tags :: "string list"

text \<open>What a handler does outside the state: the view, the status line, the sensor, the network.\<close>

datatype effect =
  SetCenter coordinate
  | SetZoom real
  | UpdateStatus gps_status
  | FollowButtonText bool
  | WatchPosition watch_handle bool
  | ClearWatch watch_handle
  | ShowMessage message severity
  | FetchGeocode string
  | FetchRoute lonlat lonlat "constraints option"

text \<open>
  Features are objects shared between the vector source and the store, and
  \<^verbatim>\<open>setGeometry\<close> mutates them in place: the state holds a heap from object identifiers
  (OpenLayers' \<^verbatim>\<open>getUid\<close>) to objects, and every reference is an identifier.

  The fields \<open>env_\<close> are the environment: whether the browser has
  \<^verbatim>\<open>navigator.geolocation\<close>, whether this OpenLayers build throws in
  \<^verbatim>\<open>removeFeature\<close> for a feature that is not in the source (builds before 7.2 do,
  later ones return silently), and the view \<^verbatim>\<open>view.fit\<close> computes for a geometry
  (\<open>None\<close> where it throws, as it does for an empty extent).
  \<open>watches\<close> are the browser's live position subscriptions, each with the
  \<^verbatim>\<open>forceInitialCenter\<close> its callback closes over.
\<close>

record state =
  env_geolocation :: bool
  env_strict_remove :: bool
  env_fit :: "ol_geometry \<Rightarrow> map_view \<Rightarrow> map_view option"
  watches :: "(watch_handle \<times> bool) list"
  heap :: "nat \<Rightarrow> ol_feature"
  next_uid :: nat
  mapInstance :: "map_view option"
  vectorSource :: "nat list option"
  markerFeature :: "nat option"
  accuracyFeature :: "nat option"
  following :: js_value
  currentPos :: "lonlat option"
  currentAccuracy :: "real option"
  watchId :: "watch_handle option"
  rotatual :: "nat option"
  originMarker :: "nat option"
  destinationMarker :: "nat option"
  originCoords :: "lonlat option"
  destinationCoords :: "lonlat option"
  apiBaseUrl :: "string option"
  hasInitialFix :: bool
  trafficFeatures :: "nat list"
  incidentFeatures :: "nat list"

section \<open>The position store\<close>

text \<open>
  Modelled from the spec: \<^verbatim>\<open>map_data.js\<close> is imported by every module and is not among
  the sources. The specification describes it as a pure state container whose setters are
  total and have no effect beyond the in-memory change, so \<^verbatim>\<open>getX()\<close> is the field and
  \<^verbatim>\<open>setX(v)\<close> is the field update; \<^verbatim>\<open>toggleFollowingState(v)\<close>, always called with the
  new value, stores it.
\<close>

definition toggleFollowingState :: "js_value \<Rightarrow> state \<Rightarrow> state" where
  "toggleFollowingState v s = s\<lparr>following := v\<rparr>"

definition isFollowing :: "state \<Rightarrow> bool" where
  "isFollowing s = truthy (following s)"

section \<open>OpenLayers primitives\<close>

text \<open>\<^verbatim>\<open>new ol.Feature(...)\<close>: a fresh object.\<close>

definition new_feature :: "ol_feature \<Rightarrow> state \<Rightarrow> nat \<times> state" where
  "new_feature f s = (next_uid s, s\<lparr>heap := (heap s)(next_uid s := f), next_uid := Suc (next_uid s)\<rparr>)"

text \<open>\<^verbatim>\<open>vectorSource.addFeature(f)\<close>, called only where the source exists.\<close>

definition addFeature :: "nat \<Rightarrow> state \<Rightarrow> state" where
  "addFeature u s = s\<lparr>vectorSource := map_option (\<lambda>fs. fs @ [u]) (vectorSource s)\<rparr>"

definition setGeometry :: "nat \<Rightarrow> ol_geometry \<Rightarrow> state \<Rightarrow> state" where
  "setGeometry u g s = s\<lparr>heap := (heap s)(u := (heap s u)\<lparr>geom := g\<rparr>)\<rparr>"

text \<open>
  \<^verbatim>\<open>vectorSource.removeFeature(f)\<close> on the source's collection: \<open>None\<close> is the
  exception of a strict build for a feature that is not there.
\<close>

definition source_remove :: "bool \<Rightarrow> nat \<Rightarrow> nat list \<Rightarrow> nat list option" where
  "source_remove strict u fs =
     (if u \<in> set fs then Some (removeAll u fs)
      else if strict then None else Some fs)"

definition removeFeature :: "nat \<Rightarrow> state \<Rightarrow> state option" where
  "removeFeature u s =
     (case vectorSource s of
        None \<Rightarrow> None
      | Some fs \<Rightarrow> map_option (\<lambda>fs'. s\<lparr>vectorSource := Some fs'\<rparr>) (source_remove (env_strict_remove s) u fs))"

definition set_view :: "map_view \<Rightarrow> state \<Rightarrow> state" where
  "set_view v s = s\<lparr>mapInstance := map_option (\<lambda>_. v) (mapInstance s)\<rparr>"

section \<open>geolocation.js\<close>

definition GPS_RELIABLE_THRESHOLD :: real where
  "GPS_RELIABLE_THRESHOLD = 150"

definition ENABLE_AUTO_CENTER_ON_START :: bool where
  "ENABLE_AUTO_CENTER_ON_START = True"

text \<open>
  \<^verbatim>\<open>view.setCenter(coord); view.setZoom(Math.max(16, view.getZoom()))\<close>, the pair of
  calls that appears three times in the module.
\<close>

definition recentre :: "coordinate \<Rightarrow> map_view \<Rightarrow> state \<Rightarrow> effect list \<times> state" where
  "recentre coord view s =
     ([SetCenter coord, SetZoom (max 16 (zoom view))],
      set_view \<lparr>center = coord, zoom = max 16 (zoom view)\<rparr> s)"

definition handlePosition :: "position \<Rightarrow> bool \<Rightarrow> state \<Rightarrow> effect list \<times> state" where
  "handlePosition pos forceInitialCenter s =
     (case (mapInstance s, vectorSource s) of
        (Some view, Some src) \<Rightarrow>
          (let lat = latitude pos; lon = longitude pos; acc = accuracy pos;
               coord = fromLonLat (lon, lat);
               s1 = s\<lparr>currentPos := Some (lon, lat), currentAccuracy := Some acc\<rparr>;
               (shouldCenter, s2) =
                 (case markerFeature s1 of
                    None \<Rightarrow>
                      (let (m, t) = new_feature \<lparr>kind = PositionMarker, geom = PointGeom coord\<rparr> s1
                       in (True, (addFeature m t)\<lparr>markerFeature := Some m\<rparr>))
                  | Some m \<Rightarrow> (False, setGeometry m (PointGeom coord) s1));
               accuracyGeom = CircleGeom coord acc;
               s3 =
                 (case accuracyFeature s2 of
                    None \<Rightarrow>
                      (let (a, t) = new_feature \<lparr>kind = AccuracyCircle, geom = accuracyGeom\<rparr> s2
                       in (addFeature a t)\<lparr>accuracyFeature := Some a\<rparr>)
                  | Some a \<Rightarrow> setGeometry a accuracyGeom s2)
           in if \<not> hasInitialFix s3 \<and> ENABLE_AUTO_CENTER_ON_START then
                (let (out, s4) = recentre coord view s3
                 in (out @ [UpdateStatus (InitialFix acc)], s4\<lparr>hasInitialFix := True\<rparr>))
              else
                (let (out, s4) =
                       (if (shouldCenter \<or> forceInitialCenter \<or> isFollowing s3)
                           \<and> acc \<le> GPS_RELIABLE_THRESHOLD
                        then recentre coord view s3 else ([], s3))
                 in if acc > GPS_RELIABLE_THRESHOLD
                    then (out @ [UpdateStatus (LowPrecision acc)], s4)
                    else (out @ [UpdateStatus (GpsActive acc (isFollowing s4))], s4)))
      | _ \<Rightarrow> ([UpdateStatus MapNotInitialised], s))"

definition handleError :: "nat \<Rightarrow> state \<Rightarrow> effect list \<times> state" where
  "handleError code s =
     ([UpdateStatus (if code = 1 then PermissionDenied else SignalUnavailable)], s)"

text \<open>\<open>h\<close> is the identifier the browser returns for the new subscription.\<close>

definition startWatching :: "bool \<Rightarrow> watch_handle \<Rightarrow> state \<Rightarrow> effect list \<times> state" where
  "startWatching forceInitialCenter h s =
     (if \<not> env_geolocation s then ([UpdateStatus GeolocationUnsupported], s)
      else if watchId s \<noteq> None then ([UpdateStatus AlreadyActive], s)
      else
        ([WatchPosition h forceInitialCenter],
         toggleFollowingState FontFaceSetLoadEvent
           (s\<lparr>watches := watches s @ [(h, forceInitialCenter)], watchId := Some h\<rparr>)))"

definition disableFollowOnMapDrag :: "state \<Rightarrow> effect list \<times> state" where
  "disableFollowOnMapDrag s =
     (if isFollowing s
      then ([UpdateStatus FollowOffByDrag, FollowButtonText False],
            toggleFollowingState (JSBool False) s)
      else ([], s))"

definition getCurrentOnceAndStartWatch :: "bool \<Rightarrow> watch_handle \<Rightarrow> state \<Rightarrow> effect list \<times> state" where
  "getCurrentOnceAndStartWatch forceCenter h s = startWatching forceCenter h s"

definition stopWatching :: "state \<Rightarrow> effect list \<times> state" where
  "stopWatching s =
     (case watchId s of
        Some h \<Rightarrow>
          ([ClearWatch h, UpdateStatus TrackingOff],
           (toggleFollowingState (JSBool False)
              (s\<lparr>watches := filter (\<lambda>w. fst w \<noteq> h) (watches s), watchId := None\<rparr>))
             \<lparr>hasInitialFix := False\<rparr>)
      | None \<Rightarrow> ([], s))"

definition toggleFollow :: "state \<Rightarrow> effect list \<times> state" where
  "toggleFollow s =
     (let s1 = toggleFollowingState (JSBool (\<not> isFollowing s)) s
      in ([UpdateStatus (if isFollowing s1 then FollowOn else FollowOff),
           FollowButtonText (isFollowing s1)], s1))"

definition centerMapOnCurrentPos :: "state \<Rightarrow> effect list \<times> state" where
  "centerMapOnCurrentPos s =
     (case (currentPos s, mapInstance s) of
        (Some p, Some view) \<Rightarrow>
          (let (out, s1) = recentre (fromLonLat p) view s
           in (out @ [UpdateStatus MapCentred], s1))
      | _ \<Rightarrow> ([UpdateStatus NoPositionToCentre], s))"

section \<open>map_utils.js\<close>

text \<open>
  A call either returns or throws; what it changed before throwing stays changed.
\<close>

datatype outcome = Returned | Thrown

text \<open>\<^verbatim>\<open>if (f) vectorSource.removeFeature(f)\<close>, outside any \<^verbatim>\<open>try\<close>.\<close>

definition remove_if_set :: "nat option \<Rightarrow> state \<Rightarrow> state option" where
  "remove_if_set r s = (case r of None \<Rightarrow> Some s | Some u \<Rightarrow> removeFeature u s)"

text \<open>\<^verbatim>\<open>try { vectorSource.removeFeature(f) } catch (e) { console.debug(...) }\<close>\<close>

definition remove_quietly :: "nat \<Rightarrow> state \<Rightarrow> state" where
  "remove_quietly u s = (case removeFeature u s of None \<Rightarrow> s | Some t \<Rightarrow> t)"

text \<open>\<^verbatim>\<open>fs.forEach(f => vectorSource.removeFeature(f))\<close>: the first exception ends the loop.\<close>

fun remove_each :: "nat list \<Rightarrow> state \<Rightarrow> outcome \<times> state" where
  "remove_each [] s = (Returned, s)"
| "remove_each (u # us) s =
     (case removeFeature u s of None \<Rightarrow> (Thrown, s) | Some t \<Rightarrow> remove_each us t)"

definition clearRoute :: "state \<Rightarrow> outcome \<times> state" where
  "clearRoute s =
     (case vectorSource s of
        None \<Rightarrow> (Returned, s)
      | Some _ \<Rightarrow>
          (case remove_if_set (rotatual s) s of
             None \<Rightarrow> (Thrown, s)
           | Some s0 \<Rightarrow>
               (let s1 = s0\<lparr>rotatual := None\<rparr>
                in case remove_if_set (originMarker s1) s1 of
                     None \<Rightarrow> (Thrown, s1)
                   | Some s2 \<Rightarrow>
                       (case remove_if_set (destinationMarker s1) s2 of
                          None \<Rightarrow> (Thrown, s2)
                        | Some s3 \<Rightarrow>
                            (let s4 = s3\<lparr>originMarker := None, destinationMarker := None\<rparr>;
                                 s5 = (fold remove_quietly (trafficFeatures s4) s4)\<lparr>trafficFeatures := []\<rparr>;
                                 s6 = (fold remove_quietly (incidentFeatures s5) s5)\<lparr>incidentFeatures := []\<rparr>
                             in (Returned, s6\<lparr>originCoords := None, destinationCoords := None\<rparr>))))))"

text \<open>
  Without a vector source the function registers itself as a one-time listener of
  \<^verbatim>\<open>mapReady\<close> and returns; the later call is another call of this function.
\<close>

definition drawRouteMarkers :: "state \<Rightarrow> outcome \<times> state" where
  "drawRouteMarkers s =
     (case vectorSource s of
        None \<Rightarrow> (Returned, s)
      | Some _ \<Rightarrow>
          (case (originCoords s, destinationCoords s) of
             (Some oc, Some dc) \<Rightarrow>
               (case remove_if_set (originMarker s) s of
                  None \<Rightarrow> (Thrown, s)
                | Some s1 \<Rightarrow>
                    (case remove_if_set (destinationMarker s) s1 of
                       None \<Rightarrow> (Thrown, s1)
                     | Some s2 \<Rightarrow>
                         (let (a, t) = new_feature \<lparr>kind = OriginMarker, geom = PointGeom (fromLonLat oc)\<rparr> s2;
                              s3 = (addFeature a t)\<lparr>originMarker := Some a\<rparr>;
                              (b, t') = new_feature \<lparr>kind = DestinationMarker, geom = PointGeom (fromLonLat dc)\<rparr> s3
                          in (Returned, (addFeature b t')\<lparr>destinationMarker := Some b\<rparr>))))
           | _ \<Rightarrow> (Returned, s)))"

text \<open>
  The body of the loop of \<^verbatim>\<open>drawTrafficSegments\<close> reads
  \<^verbatim>\<open>geom.coordinates[0][0]\<close> and \<^verbatim>\<open>geom.coordinates[1][0]\<close> inside a \<^verbatim>\<open>try\<close>: a
  missing geometry, missing coordinates or a line of fewer than two positions throws and
  the segment is skipped; the coordinates of a point are numbers, whose index is
  \<^verbatim>\<open>undefined\<close>, which does not throw.
\<close>

fun segment_drawable :: "gj_feature \<Rightarrow> bool" where
  "segment_drawable f =
     (case geometry f of
        Some (GLineString cs) \<Rightarrow> 2 \<le> length cs
      | Some (GPoint p) \<Rightarrow> True
      | _ \<Rightarrow> False)"

definition draw_segment :: "gj_feature \<Rightarrow> state \<Rightarrow> state" where
  "draw_segment segment s =
     (if segment_drawable segment then
        (let (u, t) = new_feature \<lparr>kind = TrafficSegment, geom = FromGeoJSON segment\<rparr> s;
             t1 = addFeature u t
         in t1\<lparr>trafficFeatures := trafficFeatures t1 @ [u]\<rparr>)
      else s)"

definition drawTrafficSegments :: "gj_feature list \<Rightarrow> state \<Rightarrow> state" where
  "drawTrafficSegments segments s =
     (if vectorSource s = None \<or> segments = [] then s else fold draw_segment segments s)"

text \<open>
  \<^verbatim>\<open>drawTrafficIncidents\<close> passes \<^verbatim>\<open>incident.geometry.coordinates\<close> to
  \<^verbatim>\<open>fromLonLat\<close>, which throws for a missing geometry and for missing coordinates.
\<close>

fun incident_drawable :: "gj_feature \<Rightarrow> bool" where
  "incident_drawable f =
     (case geometry f of
        Some (GLineString cs) \<Rightarrow> True
      | Some (GPoint p) \<Rightarrow> True
      | _ \<Rightarrow> False)"

definition draw_incident :: "gj_feature \<Rightarrow> state \<Rightarrow> state" where
  "draw_incident incident s =
     (if incident_drawable incident then
        (let (u, t) = new_feature \<lparr>kind = Incident, geom = FromGeoJSON incident\<rparr> s;
             t1 = addFeature u t
         in t1\<lparr>incidentFeatures := incidentFeatures t1 @ [u]\<rparr>)
      else s)"

definition drawTrafficIncidents :: "gj_feature list \<Rightarrow> state \<Rightarrow> state" where
  "drawTrafficIncidents incidents s =
     (if vectorSource s = None \<or> incidents = [] then s else fold draw_incident incidents s)"

definition is_route_feature :: "gj_feature \<Rightarrow> bool" where
  "is_route_feature f =
     (feature_type f = Some ''route_reference'' \<or> feature_type f = Some ''route_basic''
      \<or> ((feature_type f = None \<or> feature_type f = Some [])
          \<and> (case geometry f of Some (GLineString cs) \<Rightarrow> True | _ \<Rightarrow> False)))"

definition is_traffic_segment :: "gj_feature \<Rightarrow> bool" where
  "is_traffic_segment f = (feature_type f = Some ''traffic_segment'')"

definition is_traffic_incident :: "gj_feature \<Rightarrow> bool" where
  "is_traffic_incident f = (feature_type f = Some ''traffic_incident'')"

text \<open>
  The base route of \<^verbatim>\<open>drawRouteOnMap\<close>: \<^verbatim>\<open>readFeatures(mainRoute)\<close> throws for a
  geometry it cannot read and yields a feature without geometry for a null geometry; the
  feature is added and stored, and only then \<^verbatim>\<open>getGeometry().getExtent()\<close> and
  \<^verbatim>\<open>view.fit\<close> run, which throw for a null geometry and where the environment says so.
  Both branches on the number of traffic segments add and store the feature and differ in
  its style only.
\<close>

definition draw_base_route :: "gj_feature \<Rightarrow> map_view \<Rightarrow> state \<Rightarrow> outcome \<times> state" where
  "draw_base_route mainRoute view s =
     (case geometry mainRoute of
        Some GUnreadable \<Rightarrow> (Thrown, s)
      | g \<Rightarrow>
          (let routeGeom = (case g of None \<Rightarrow> NullGeometry | Some _ \<Rightarrow> FromGeoJSON mainRoute);
               (u, t) = new_feature \<lparr>kind = RouteLine, geom = routeGeom\<rparr> s;
               s1 = (addFeature u t)\<lparr>rotatual := Some u\<rparr>
           in if routeGeom = NullGeometry then (Thrown, s1)
              else (case env_fit s1 routeGeom view of
                      None \<Rightarrow> (Thrown, s1)
                    | Some view' \<Rightarrow> (Returned, set_view view' s1))))"

text \<open>
  \<^verbatim>\<open>drawRouteOnMap\<close> first removes the previous overlay: the route line, then every
  traffic segment, then every incident. These statements stand before the \<^verbatim>\<open>try\<close>,
  so an exception of \<^verbatim>\<open>removeFeature\<close> leaves the function.
\<close>

definition remove_previous_overlay :: "state \<Rightarrow> outcome \<times> state" where
  "remove_previous_overlay s =
     (case remove_if_set (rotatual s) s of
        None \<Rightarrow> (Thrown, s)
      | Some s0 \<Rightarrow>
          (let s1 = s0\<lparr>rotatual := None\<rparr>
           in case remove_each (trafficFeatures s1) s1 of
                (Thrown, s2) \<Rightarrow> (Thrown, s2)
              | (Returned, s2) \<Rightarrow>
                  (let s3 = s2\<lparr>trafficFeatures := []\<rparr>
                   in case remove_each (incidentFeatures s3) s3 of
                        (Thrown, s4) \<Rightarrow> (Thrown, s4)
                      | (Returned, s4) \<Rightarrow> (Returned, s4\<lparr>incidentFeatures := []\<rparr>))))"

text \<open>
  The body of the \<^verbatim>\<open>try\<close>, whose handler logs and returns: an exception of the base
  route ends the drawing with what was drawn so far.
\<close>

definition draw_features :: "gj_feature list \<Rightarrow> map_view \<Rightarrow> state \<Rightarrow> state" where
  "draw_features fs view s =
     (if fs = [] then s
      else
        (let routeFeatures = filter is_route_feature fs;
             trafficSegments = filter is_traffic_segment fs;
             incidents = filter is_traffic_incident fs;
             (r, s1) =
               (case routeFeatures of
                  [] \<Rightarrow> (Returned, s)
                | mainRoute # _ \<Rightarrow> draw_base_route mainRoute view s)
         in if r = Thrown then s1
            else
              (let s2 = (if trafficSegments \<noteq> [] then drawTrafficSegments trafficSegments s1 else s1)
               in if incidents \<noteq> [] then drawTrafficIncidents incidents s2 else s2)))"

text \<open>The returned summary of distance and duration is not modelled.\<close>

definition drawRouteOnMap :: "geojson option \<Rightarrow> state \<Rightarrow> outcome \<times> state" where
  "drawRouteOnMap geojsonResult s =
     (case (mapInstance s, vectorSource s, geojsonResult) of
        (Some view, Some src, Some result) \<Rightarrow>
          (case remove_previous_overlay s of
             (Thrown, s1) \<Rightarrow> (Thrown, s1)
           | (Returned, s1) \<Rightarrow>
               (Returned,
                draw_features (case features result of None \<Rightarrow> [] | Some l \<Rightarrow> l) view s1))
      | _ \<Rightarrow> (Returned, s))"

section \<open>route_logic.js\<close>

text \<open>
  An \<^verbatim>\<open>async\<close> function runs until its first \<^verbatim>\<open>await\<close> of something pending, then
  again from there when that settles; other handlers run in between. Each function of
  this module is therefore one function per such stretch, and \<open>route_task\<close> says where
  the call stands afterwards: it has returned, it was rejected by an exception, or it
  waits for a response, with the local variables it needs to go on.
\<close>

datatype route_task =
  Finished
  | Rejected
  | AwaitGeocodeOrigin string
  | AwaitGeocodeDestination lonlat
  | AwaitMapReady lonlat lonlat
  | AwaitRouteResponse

datatype geocode_step = GeocodeNull | GeocodeCoord lonlat | GeocodePending

text \<open>
  \<^verbatim>\<open>String.prototype.toUpperCase\<close> on the ASCII letters, which is all the comparison
  with \<^verbatim>\<open>'GPS'\<close> needs.
\<close>

definition upper_char :: "char \<Rightarrow> char" where
  "upper_char c =
     (case map_of (zip ''abcdefghijklmnopqrstuvwxyz'' ''ABCDEFGHIJKLMNOPQRSTUVWXYZ'') c of
        Some u \<Rightarrow> u
      | None \<Rightarrow> c)"

definition toUpperCase :: "string \<Rightarrow> string" where
  "toUpperCase t = map upper_char t"

definition url_defined :: "state \<Rightarrow> bool" where
  "url_defined s = (case apiBaseUrl s of None \<Rightarrow> False | Some u \<Rightarrow> u \<noteq> [])"

text \<open>
  \<^verbatim>\<open>geocodeAddress\<close> up to its \<^verbatim>\<open>fetch\<close>. The recogniser of coordinate pairs,
  \<^verbatim>\<open>parseCoordinateString\<close>, is the parameter \<open>parse\<close>: nothing proved here depends on
  which strings it accepts.
\<close>

definition geocodeAddress :: "(string \<Rightarrow> lonlat option) \<Rightarrow> string \<Rightarrow> state \<Rightarrow> effect list \<times> geocode_step" where
  "geocodeAddress parse address s =
     (if \<not> url_defined s then ([ShowMessage ServerUrlUndefined Error], GeocodeNull)
      else case parse address of
             Some coord \<Rightarrow> ([], GeocodeCoord coord)
           | None \<Rightarrow> ([FetchGeocode address], GeocodePending))"

text \<open>
  \<^verbatim>\<open>calculateRouteFromAddresses\<close> from step 2 (the destination) to
  \<^verbatim>\<open>await waitForMapReady()\<close>, with the origin resolved.
\<close>

definition process_destination ::
  "(string \<Rightarrow> lonlat option) \<Rightarrow> lonlat \<Rightarrow> string \<Rightarrow> state \<Rightarrow> effect list \<times> state \<times> route_task" where
  "process_destination parse origin destinationInput s =
     (case geocodeAddress parse destinationInput s of
        (out, GeocodeNull) \<Rightarrow> (out, s, Finished)
      | (out, GeocodePending) \<Rightarrow> (out, s, AwaitGeocodeDestination origin)
      | (out, GeocodeCoord dest) \<Rightarrow>
          (out, s\<lparr>originCoords := Some origin, destinationCoords := Some dest\<rparr>,
           AwaitMapReady origin dest))"

text \<open>\<^verbatim>\<open>acc && acc > ACC_THRESHOLD\<close>: \<^verbatim>\<open>null\<close>, \<^verbatim>\<open>undefined\<close> and 0 are falsy.\<close>

definition gps_unreliable :: "real option \<Rightarrow> bool" where
  "gps_unreliable acc =
     (case acc of None \<Rightarrow> False | Some a \<Rightarrow> a \<noteq> 0 \<and> a > GPS_RELIABLE_THRESHOLD)"

definition calculateRouteFromAddresses ::
  "(string \<Rightarrow> lonlat option) \<Rightarrow> string \<Rightarrow> string \<Rightarrow> state \<Rightarrow> effect list \<times> state \<times> route_task" where
  "calculateRouteFromAddresses parse originInput destinationInput s =
     (case clearRoute s of
        (Thrown, s1) \<Rightarrow> ([], s1, Rejected)
      | (Returned, s1) \<Rightarrow>
          (let out0 = [ShowMessage CalculatingRoute Info]
           in if toUpperCase originInput = ''GPS'' then
                (case currentPos s1 of
                   Some gpsPos \<Rightarrow>
                     (let acc = currentAccuracy s1
                      in if gps_unreliable acc
                         then (out0 @ [ShowMessage (GpsImprecise (the acc)) Error], s1, Finished)
                         else
                           (let (out, r) = process_destination parse gpsPos destinationInput s1
                            in (out0 @ [ShowMessage OriginFromGps Info] @ out, r)))
                 | None \<Rightarrow> (out0 @ [ShowMessage GpsUnavailable Error], s1, Finished))
              else
                (case geocodeAddress parse originInput s1 of
                   (out, GeocodeNull) \<Rightarrow> (out0 @ out, s1, Finished)
                 | (out, GeocodePending) \<Rightarrow> (out0 @ out, s1, AwaitGeocodeOrigin destinationInput)
                 | (out, GeocodeCoord origin) \<Rightarrow>
                     (let (out', r) = process_destination parse origin destinationInput s1
                      in (out0 @ out @ out', r)))))"

text \<open>
  \<^verbatim>\<open>calculateAndDrawRoute\<close>, which is \<^verbatim>\<open>window.drawRoute\<close>, up to
  \<^verbatim>\<open>await waitForMapReady()\<close>.
\<close>

definition calculateAndDrawRoute :: "lonlat \<Rightarrow> lonlat \<Rightarrow> state \<Rightarrow> effect list \<times> state \<times> route_task" where
  "calculateAndDrawRoute origin destination s =
     (case clearRoute s of
        (Thrown, s1) \<Rightarrow> ([], s1, Rejected)
      | (Returned, s1) \<Rightarrow>
          ([ShowMessage CalculatingRouteByCoordinates Info],
           s1\<lparr>originCoords := Some origin, destinationCoords := Some destination\<rparr>,
           AwaitMapReady origin destination))"

text \<open>
  \<^verbatim>\<open>fetchRouteData\<close> up to its \<^verbatim>\<open>fetch\<close>. The two request shapes, one per endpoint,
  carry the same origin, destination and constraints.
\<close>

definition fetchRouteData :: "lonlat \<Rightarrow> lonlat \<Rightarrow> constraints option \<Rightarrow> state \<Rightarrow> effect list \<times> route_task" where
  "fetchRouteData origin destination cs s =
     (if \<not> url_defined s then ([ShowMessage ServerUrlUndefined Error], Finished)
      else ([FetchRoute origin destination cs], AwaitRouteResponse))"

text \<open>
  \<^verbatim>\<open>calculateAndDrawRoute\<close> from the moment \<^verbatim>\<open>waitForMapReady\<close> resolves, which it
  does only once the vector source exists. \<open>cs\<close> is what \<^verbatim>\<open>getRouteConstraints\<close>
  reads from the checkboxes.
\<close>

definition calculateAndDrawRoute_ready ::
  "lonlat \<Rightarrow> lonlat \<Rightarrow> constraints \<Rightarrow> state \<Rightarrow> effect list \<times> state \<times> route_task" where
  "calculateAndDrawRoute_ready origin destination cs s =
     (if vectorSource s = None then ([], s, AwaitMapReady origin destination)
      else case drawRouteMarkers s of
             (Thrown, s1) \<Rightarrow> ([], s1, Rejected)
           | (Returned, s1) \<Rightarrow>
               (let hasConstraints = (avoid_tags cs \<noteq> [] \<or> prefer_tags cs \<noteq> []);
                    (out, r) = fetchRouteData origin destination (if hasConstraints then Some cs else None) s1
                in (out, s1, r)))"

text \<open>
  \<^verbatim>\<open>fetchRouteData\<close> from the response on. The body is the parsed JSON (\<open>None\<close> for
  \<^verbatim>\<open>null\<close>, on which the first property access throws into the handler of the outer
  \<^verbatim>\<open>try\<close>). An exception of \<^verbatim>\<open>drawRouteOnMap\<close> is caught. The extraction of distance
  and duration and the panels it fills do not touch the state and are not modelled.
\<close>

datatype http_response = NetworkFailure | HttpResponse bool nat "geojson option"

definition fetchRouteData_response :: "http_response \<Rightarrow> state \<Rightarrow> effect list \<times> state" where
  "fetchRouteData_response resp s =
     (case resp of
        NetworkFailure \<Rightarrow> ([ShowMessage ConnectionError Error], s)
      | HttpResponse ok status body \<Rightarrow>
          (if \<not> ok then
             (if body = None then ([ShowMessage ConnectionError Error], s)
              else if status = 401 \<or> status = 403 then ([ShowMessage RouteAccessDenied Error], s)
              else ([ShowMessage RouteFailed Error], s))
           else
             (let (r, s1) = drawRouteOnMap body s
              in if body = None then ([ShowMessage ConnectionError Error], s1)
                 else ([ShowMessage RouteCalculated Success], s1))))"

section \<open>The earlier route_logic.js\<close>

text \<open>
  The repository also holds the earlier, non-module version of the file, whose
  \<^verbatim>\<open>window.drawRoute\<close> keeps a flag \<^verbatim>\<open>is_drawing_route\<close> over its globals
  \<^verbatim>\<open>rotatual\<close> (a layer) and \<^verbatim>\<open>map\<close>. A layer is named by the response it was built
  from.
\<close>

record legacy_state =
  is_drawing_route :: bool
  legacy_rotatual :: "nat option"
  legacy_layers :: "nat list"

datatype legacy_effect = ConsoleWarn | LegacyFetch lonlat lonlat | LegacyStatus bool

definition remove_route :: "legacy_state \<Rightarrow> legacy_state" where
  "remove_route s =
     (case legacy_rotatual s of
        None \<Rightarrow> s
      | Some l \<Rightarrow> s\<lparr>legacy_layers := removeAll l (legacy_layers s), legacy_rotatual := None\<rparr>)"

text \<open>Up to \<^verbatim>\<open>await fetch('/rota', ...)\<close>; the Boolean says whether the call goes on.\<close>

definition legacy_drawRoute :: "lonlat \<Rightarrow> lonlat \<Rightarrow> legacy_state \<Rightarrow> legacy_effect list \<times> legacy_state \<times> bool" where
  "legacy_drawRoute origemCoord destinoCoord s =
     (if is_drawing_route s then ([ConsoleWarn], s, False)
      else ([LegacyFetch origemCoord destinoCoord], remove_route (s\<lparr>is_drawing_route := True\<rparr>), True))"

text \<open>From the response on: \<open>Some l\<close> is a route, \<open>None\<close> any failure; \<^verbatim>\<open>finally\<close> clears the flag.\<close>

definition legacy_drawRoute_response :: "nat option \<Rightarrow> legacy_state \<Rightarrow> legacy_effect list \<times> legacy_state" where
  "legacy_drawRoute_response resp s =
     (case resp of
        Some l \<Rightarrow>
          ([LegacyStatus True],
           s\<lparr>legacy_rotatual := Some l, legacy_layers := legacy_layers s @ [l], is_drawing_route := False\<rparr>)
      | None \<Rightarrow> ([LegacyStatus False], s\<lparr>is_drawing_route := False\<rparr>))"

section \<open>The event loop\<close>

text \<open>
  \<^verbatim>\<open>initializeMap\<close> of \<^verbatim>\<open>map_init.js\<close> publishes the map, its empty vector source and
  the server address once, when the first rendering completes.
\<close>

definition initializeMap_rendercomplete :: "string \<Rightarrow> state \<Rightarrow> state" where
  "initializeMap_rendercomplete url s =
     s\<lparr>mapInstance := Some \<lparr>center = fromLonLat (- 46.633309, - 23.55052), zoom = 10\<rparr>,
       vectorSource := Some [],
       apiBaseUrl := Some url\<rparr>"

text \<open>
  The state before any handler has run. Modelled from the spec: the initial values of the
  store are declared in \<^verbatim>\<open>map_data.js\<close>; the specification has no position, no watch
  handle, no overlay and follow-mode off until an operation sets them.
\<close>

definition initial_state :: "bool \<Rightarrow> bool \<Rightarrow> (ol_geometry \<Rightarrow> map_view \<Rightarrow> map_view option) \<Rightarrow> state" where
  "initial_state geo strict fit =
     \<lparr>env_geolocation = geo, env_strict_remove = strict, env_fit = fit,
      watches = [], heap = (\<lambda>_. \<lparr>kind = PositionMarker, geom = NullGeometry\<rparr>), next_uid = 0,
      mapInstance = None, vectorSource = None, markerFeature = None, accuracyFeature = None,
      following = JSBool False, currentPos = None, currentAccuracy = None, watchId = None,
      rotatual = None, originMarker = None, destinationMarker = None,
      originCoords = None, destinationCoords = None, apiBaseUrl = None,
      hasInitialFix = False, trafficFeatures = [], incidentFeatures = []\<rparr>"

text \<open>
  The state changes one handler at a time. The events are the calls that write the state:
  the listeners \<^verbatim>\<open>events.js\<close> and \<^verbatim>\<open>map_init.js\<close> register for the tracking
  controller, the sensor's callbacks for a live subscription, and the operations of the
  render surface and the two coordinate setters, which the route functions call between
  their suspension points. \<^verbatim>\<open>initMapWithCurrentPosition\<close> has no caller in the sources
  and is not an event.
\<close>

datatype event =
  MapReadyEv string
  | StartWatchingEv bool watch_handle
  | PositionEv watch_handle position
  | SensorErrorEv watch_handle nat
  | StopWatchingEv
  | ToggleFollowEv
  | MapDragEv coordinate
  | CenterEv
  | ClearRouteEv
  | DrawRouteMarkersEv
  | DrawRouteEv "geojson option"
  | SetOriginCoordsEv "lonlat option"
  | SetDestinationCoordsEv "lonlat option"

fun step :: "event \<Rightarrow> state \<Rightarrow> state" where
  "step (MapReadyEv url) s =
     (if mapInstance s = None then initializeMap_rendercomplete url s else s)"
| "step (StartWatchingEv force h) s = snd (getCurrentOnceAndStartWatch force h s)"
| "step (PositionEv h pos) s =
     (case map_of (watches s) h of
        None \<Rightarrow> s
      | Some force \<Rightarrow> snd (handlePosition pos force s))"
| "step (SensorErrorEv h code) s = snd (handleError code s)"
| "step StopWatchingEv s = snd (stopWatching s)"
| "step ToggleFollowEv s = snd (toggleFollow s)"
| "step (MapDragEv c) s =
     (case mapInstance s of
        None \<Rightarrow> s
      | Some view \<Rightarrow> snd (disableFollowOnMapDrag (set_view (view\<lparr>center := c\<rparr>) s)))"
| "step CenterEv s = snd (centerMapOnCurrentPos s)"
| "step ClearRouteEv s = snd (clearRoute s)"
| "step DrawRouteMarkersEv s = snd (drawRouteMarkers s)"
| "step (DrawRouteEv r) s = snd (drawRouteOnMap r s)"
| "step (SetOriginCoordsEv c) s = s\<lparr>originCoords := c\<rparr>"
| "step (SetDestinationCoordsEv c) s = s\<lparr>destinationCoords := c\<rparr>"

definition run :: "event list \<Rightarrow> state \<Rightarrow> state" where
  "run es s = fold step es s"

definition reachable :: "state \<Rightarrow> bool" where
  "reachable s = (\<exists>geo strict fit es. s = run es (initial_state geo strict fit))"

text \<open>
  A position callback is accepted when it is delivered to a live subscription and the map
  and its vector source are published.
\<close>

fun fix_accepted :: "event \<Rightarrow> state \<Rightarrow> bool" where
  "fix_accepted (PositionEv h pos) s =
     (map_of (watches s) h \<noteq> None \<and> mapInstance s \<noteq> None \<and> vectorSource s \<noteq> None)"
| "fix_accepted _ s = False"

fun no_fix_accepted :: "event list \<Rightarrow> state \<Rightarrow> bool" where
  "no_fix_accepted [] s = True"
| "no_fix_accepted (e # es) s = (\<not> fix_accepted e s \<and> no_fix_accepted es (step e s))"

section \<open>Invariants and closed forms\<close>

text \<open>The calls that move the view.\<close>

fun view_call :: "effect \<Rightarrow> bool" where
  "view_call (SetCenter c) = True"
| "view_call (SetZoom z) = True"
| "view_call _ = False"

text \<open>What the route functions leave alone: the tracking variables and the environment.\<close>

definition gps_frame :: "state \<Rightarrow> state \<Rightarrow> bool" where
  "gps_frame s t =
     (hasInitialFix t = hasInitialFix s \<and> watchId t = watchId s \<and> watches t = watches s
      \<and> following t = following s
      \<and> currentPos t = currentPos s \<and> currentAccuracy t = currentAccuracy s
      \<and> env_fit t = env_fit s
      \<and> env_geolocation t = env_geolocation s \<and> env_strict_remove t = env_strict_remove s
      \<and> (mapInstance t = None) = (mapInstance s = None)
      \<and> (vectorSource t = None) = (vectorSource s = None))"

text \<open>The tracking variables agree with each other in every state the page reaches.\<close>

definition tracking_inv :: "state \<Rightarrow> bool" where
  "tracking_inv s =
     ((hasInitialFix s \<longrightarrow> watchId s \<noteq> None \<and> mapInstance s \<noteq> None \<and> vectorSource s \<noteq> None)
      \<and> (watchId s \<noteq> None \<longrightarrow> env_geolocation s)
      \<and> (currentAccuracy s \<noteq> None \<longrightarrow> currentPos s \<noteq> None)
      \<and> (watchId s = None \<longrightarrow> watches s = [])
      \<and> (\<forall>h. watchId s = Some h \<longrightarrow> (\<exists>f. watches s = [(h, f)])))"

text \<open>The references the store holds, slot by slot.\<close>

definition refs :: "nat option \<Rightarrow> nat list" where
  "refs r = (case r of None \<Rightarrow> [] | Some u \<Rightarrow> [u])"

definition overlay_refs :: "state \<Rightarrow> nat list" where
  "overlay_refs s = refs (rotatual s) @ trafficFeatures s @ incidentFeatures s"

definition marker_refs :: "state \<Rightarrow> nat list" where
  "marker_refs s = refs (rotatual s) @ refs (originMarker s) @ refs (destinationMarker s)"

definition route_refs :: "state \<Rightarrow> nat list" where
  "route_refs s = marker_refs s @ trafficFeatures s @ incidentFeatures s"

definition tracked :: "state \<Rightarrow> nat list" where
  "tracked s = refs (markerFeature s) @ refs (accuracyFeature s) @ route_refs s"

definition source_list :: "state \<Rightarrow> nat list" where
  "source_list s = (case vectorSource s of None \<Rightarrow> [] | Some src \<Rightarrow> src)"

text \<open>The kind each reference of the store must have.\<close>

definition kinds_ok :: "state \<Rightarrow> bool" where
  "kinds_ok s =
     ((\<forall>u \<in> set (refs (markerFeature s)). kind (heap s u) = PositionMarker)
      \<and> (\<forall>u \<in> set (refs (accuracyFeature s)). kind (heap s u) = AccuracyCircle)
      \<and> (\<forall>u \<in> set (refs (rotatual s)). kind (heap s u) = RouteLine)
      \<and> (\<forall>u \<in> set (refs (originMarker s)). kind (heap s u) = OriginMarker)
      \<and> (\<forall>u \<in> set (refs (destinationMarker s)). kind (heap s u) = DestinationMarker)
      \<and> (\<forall>u \<in> set (trafficFeatures s). kind (heap s u) = TrafficSegment)
      \<and> (\<forall>u \<in> set (incidentFeatures s). kind (heap s u) = Incident))"

text \<open>The vector source holds exactly the features the store refers to, each once.\<close>

definition wf_state :: "state \<Rightarrow> bool" where
  "wf_state s =
     ((mapInstance s = None) = (vectorSource s = None)
      \<and> distinct (tracked s) \<and> distinct (source_list s)
      \<and> set (source_list s) = set (tracked s)
      \<and> (\<forall>u \<in> set (tracked s). u < next_uid s)
      \<and> kinds_ok s)"

text \<open>Two states with the same features.\<close>

definition same_features :: "state \<Rightarrow> state \<Rightarrow> bool" where
  "same_features s t =
     (tracked t = tracked s \<and> source_list t = source_list s \<and> next_uid t = next_uid s
      \<and> (mapInstance t = None) = (mapInstance s = None)
      \<and> (vectorSource t = None) = (vectorSource s = None)
      \<and> (\<forall>u. kind (heap t u) = kind (heap s u))
      \<and> markerFeature t = markerFeature s \<and> accuracyFeature t = accuracyFeature s
      \<and> rotatual t = rotatual s \<and> originMarker t = originMarker s
      \<and> destinationMarker t = destinationMarker s
      \<and> trafficFeatures t = trafficFeatures s \<and> incidentFeatures t = incidentFeatures s)"

text \<open>The vector source without the given features.\<close>

definition drop_refs :: "nat list \<Rightarrow> state \<Rightarrow> state" where
  "drop_refs us s = s\<lparr>vectorSource := map_option (filter (\<lambda>u. u \<notin> set us)) (vectorSource s)\<rparr>"

text \<open>A removal cannot throw: the build is lenient or the feature is in the source.\<close>

definition removable :: "nat list \<Rightarrow> state \<Rightarrow> bool" where
  "removable us s =
     (vectorSource s \<noteq> None
      \<and> (env_strict_remove s \<longrightarrow> distinct us \<and> set us \<subseteq> set (source_list s)))"

text \<open>The states that clearing and redrawing reach when no removal throws.\<close>

definition cleared :: "state \<Rightarrow> state" where
  "cleared s =
     (drop_refs (route_refs s) s)
       \<lparr>rotatual := None, originMarker := None, destinationMarker := None,
        trafficFeatures := [], incidentFeatures := [],
        originCoords := None, destinationCoords := None\<rparr>"

definition overlay_removed :: "state \<Rightarrow> state" where
  "overlay_removed s =
     (drop_refs (overlay_refs s) s)\<lparr>rotatual := None, trafficFeatures := [], incidentFeatures := []\<rparr>"

text \<open>A new feature, allocated and added to the vector source.\<close>

definition add_new :: "ol_feature \<Rightarrow> state \<Rightarrow> state" where
  "add_new f s = addFeature (next_uid s) (snd (new_feature f s))"

text \<open>The state \<^verbatim>\<open>handlePosition\<close> reaches before it decides about the view.\<close>

definition place_marker :: "coordinate \<Rightarrow> state \<Rightarrow> state" where
  "place_marker coord s =
     (case markerFeature s of
        None \<Rightarrow> (add_new \<lparr>kind = PositionMarker, geom = PointGeom coord\<rparr> s)\<lparr>markerFeature := Some (next_uid s)\<rparr>
      | Some m \<Rightarrow> setGeometry m (PointGeom coord) s)"

definition place_circle :: "coordinate \<Rightarrow> real \<Rightarrow> state \<Rightarrow> state" where
  "place_circle coord acc s =
     (case accuracyFeature s of
        None \<Rightarrow> (add_new \<lparr>kind = AccuracyCircle, geom = CircleGeom coord acc\<rparr> s)\<lparr>accuracyFeature := Some (next_uid s)\<rparr>
      | Some a \<Rightarrow> setGeometry a (CircleGeom coord acc) s)"

definition located :: "position \<Rightarrow> state \<Rightarrow> state" where
  "located pos s =
     place_circle (fromLonLat (longitude pos, latitude pos)) (accuracy pos)
       (place_marker (fromLonLat (longitude pos, latitude pos))
          (s\<lparr>currentPos := Some (longitude pos, latitude pos), currentAccuracy := Some (accuracy pos)\<rparr>))"

definition markers_removed :: "state \<Rightarrow> state" where
  "markers_removed s =
     (drop_refs (refs (originMarker s) @ refs (destinationMarker s)) s)
       \<lparr>originMarker := None, destinationMarker := None\<rparr>"

text \<open>The features of one kind that the vector source holds, that is, that the map shows.\<close>

definition rendered :: "feature_kind \<Rightarrow> state \<Rightarrow> nat list" where
  "rendered k s = filter (\<lambda>u. kind (heap s u) = k) (source_list s)"

text \<open>
  The base route of a response is drawn without an exception: there is none, or the
  first route feature has a geometry that OpenLayers reads and fits the view to.
\<close>

definition base_route_ok :: "gj_feature list \<Rightarrow> map_view \<Rightarrow> state \<Rightarrow> bool" where
  "base_route_ok fs view s =
     (case filter is_route_feature fs of
        [] \<Rightarrow> True
      | m # _ \<Rightarrow> geometry m \<noteq> None \<and> geometry m \<noteq> Some GUnreadable
                 \<and> env_fit s (FromGeoJSON m) view \<noteq> None)"

text \<open>Drawing keeps the markers and only adds overlay features with new identifiers.\<close>

definition drawn_from :: "state \<Rightarrow> state \<Rightarrow> bool" where
  "drawn_from t t' =
     (markerFeature t' = markerFeature t \<and> accuracyFeature t' = accuracyFeature t
      \<and> originMarker t' = originMarker t \<and> destinationMarker t' = destinationMarker t
      \<and> env_fit t' = env_fit t \<and> next_uid t \<le> next_uid t'
      \<and> (vectorSource t' = None) = (vectorSource t = None)
      \<and> (\<forall>u \<in> set (overlay_refs t'). u \<in> set (overlay_refs t) \<or> next_uid t \<le> u))"

section \<open>Example states\<close>

text \<open>A page whose map is ready, the fixes it receives and the states it passes through.\<close>

definition example_fit :: "ol_geometry \<Rightarrow> map_view \<Rightarrow> map_view option" where
  "example_fit g v = Some v"

definition example_handle :: watch_handle where
  "example_handle = WatchHandle 1"

definition first_fix :: position where
  "first_fix = \<lparr>latitude = - 23.5, longitude = - 46.6, accuracy = 20\<rparr>"

definition poor_fix :: position where
  "poor_fix = \<lparr>latitude = - 23.6, longitude = - 46.7, accuracy = 200\<rparr>"

definition good_fix :: position where
  "good_fix = \<lparr>latitude = - 23.6, longitude = - 46.7, accuracy = 50\<rparr>"

definition example_ready :: state where
  "example_ready = run [MapReadyEv ''http://localhost:5000''] (initial_state True True example_fit)"

definition example_watching :: state where
  "example_watching = run [StartWatchingEv False example_handle] example_ready"

definition example_tracking :: state where
  "example_tracking = run [PositionEv example_handle first_fix] example_watching"

definition example_stopped :: state where
  "example_stopped = run [StopWatchingEv] example_tracking"

definition example_poor :: state where
  "example_poor = run [PositionEv example_handle poor_fix] example_tracking"

definition no_coordinates :: "string \<Rightarrow> lonlat option" where
  "no_coordinates t = None"

definition example_unrated :: state where
  "example_unrated = example_ready\<lparr>currentPos := Some (- 46.6, - 23.5)\<rparr>"

definition example_exact :: state where
  "example_exact = example_unrated\<lparr>currentAccuracy := Some 0\<rparr>"




text \<open>Server responses.\<close>

definition route_line :: gj_feature where
  "route_line = \<lparr>feature_type = Some ''route_basic'',
                  geometry = Some (GLineString [(- 46.6, - 23.5), (- 46.65, - 23.55), (- 46.7, - 23.6)])\<rparr>"

definition segment_a :: gj_feature where
  "segment_a = \<lparr>feature_type = Some ''traffic_segment'',
                 geometry = Some (GLineString [(- 46.6, - 23.5), (- 46.65, - 23.55)])\<rparr>"

definition segment_b :: gj_feature where
  "segment_b = \<lparr>feature_type = Some ''traffic_segment'',
                 geometry = Some (GLineString [(- 46.65, - 23.55), (- 46.7, - 23.6)])\<rparr>"

definition incident_a :: gj_feature where
  "incident_a = \<lparr>feature_type = Some ''traffic_incident'', geometry = Some (GPoint (- 46.65, - 23.55))\<rparr>"

definition segment_without_geometry :: gj_feature where
  "segment_without_geometry = \<lparr>feature_type = Some ''traffic_segment'', geometry = None\<rparr>"

definition first_response :: geojson where
  "first_response = \<lparr>features = Some [route_line, segment_a, segment_b, incident_a]\<rparr>"

definition second_response :: geojson where
  "second_response = \<lparr>features = Some [route_line, segment_a]\<rparr>"

definition broken_response :: geojson where
  "broken_response = \<lparr>features = Some [segment_without_geometry]\<rparr>"

definition example_drawn :: state where
  "example_drawn = run [DrawRouteEv (Some first_response)] example_ready"

definition no_constraints :: constraints where
  "no_constraints = \<lparr>avoid_tags = [], prefer_tags = []\<rparr>"

definition first_route :: gj_feature where
  "first_route = \<lparr>feature_type = Some ''route_basic'',
                   geometry = Some (GLineString [(- 46.6, - 23.5), (- 46.7, - 23.6)])\<rparr>"

definition second_route :: gj_feature where
  "second_route = \<lparr>feature_type = Some ''route_basic'',
                    geometry = Some (GLineString [(- 46.5, - 23.4), (- 46.8, - 23.7)])\<rparr>"

text \<open>
  Two requests by coordinates. The first is made at the ready example state and has sent
  its request to the server; the second is made while the first waits for its response.
\<close>

definition first_in_flight :: state where
  "first_in_flight =
     fst (snd (calculateAndDrawRoute_ready (- 46.6, - 23.5) (- 46.7, - 23.6) no_constraints
       (fst (snd (calculateAndDrawRoute (- 46.6, - 23.5) (- 46.7, - 23.6) example_ready)))))"

definition both_in_flight :: state where
  "both_in_flight =
     fst (snd (calculateAndDrawRoute_ready (- 46.5, - 23.4) (- 46.8, - 23.7) no_constraints
       (fst (snd (calculateAndDrawRoute (- 46.5, - 23.4) (- 46.8, - 23.7) first_in_flight)))))"

text \<open>The response to the second request arrives first, then the response to the first.\<close>

definition both_settled :: state where
  "both_settled =
     snd (fetchRouteData_response (HttpResponse True 200 (Some \<lparr>features = Some [first_route]\<rparr>))
       (snd (fetchRouteData_response (HttpResponse True 200 (Some \<lparr>features = Some [second_route]\<rparr>))
          both_in_flight)))"

section \<open>Frame and invariant lemmas\<close>

lemma gps_frame_refl: "gps_frame s s"
  by (simp add: gps_frame_def)

lemma gps_frame_trans: "gps_frame s t \<Longrightarrow> gps_frame t u \<Longrightarrow> gps_frame s u"
  by (simp add: gps_frame_def)

lemma removeFeature_frame: "removeFeature u s = Some t \<Longrightarrow> gps_frame s t"
  by (auto simp: removeFeature_def gps_frame_def split: option.splits)

lemma remove_if_set_frame: "remove_if_set r s = Some t \<Longrightarrow> gps_frame s t"
  by (auto simp: remove_if_set_def gps_frame_refl removeFeature_frame split: option.splits)

lemma remove_quietly_frame: "gps_frame s (remove_quietly u s)"
  by (auto simp: remove_quietly_def gps_frame_refl removeFeature_frame split: option.splits)

lemma fold_remove_quietly_frame: "gps_frame s (fold remove_quietly us s)"
proof (induction us arbitrary: s)
  case Nil
  show ?case by (simp add: gps_frame_refl)
next
  case (Cons u us)
  show ?case
    using gps_frame_trans [OF remove_quietly_frame Cons.IH] by simp
qed

lemma remove_each_frame: "remove_each us s = (r, t) \<Longrightarrow> gps_frame s t"
proof (induction us arbitrary: s)
  case Nil
  then show ?case by (simp add: gps_frame_refl)
next
  case (Cons u us)
  then show ?case
    by (auto split: option.splits intro: gps_frame_trans removeFeature_frame simp: gps_frame_refl)
qed

lemma draw_segment_frame: "gps_frame s (draw_segment f s)"
  by (simp add: draw_segment_def gps_frame_def new_feature_def addFeature_def Let_def)

lemma draw_incident_frame: "gps_frame s (draw_incident f s)"
  by (simp add: draw_incident_def gps_frame_def new_feature_def addFeature_def Let_def)

lemma fold_draw_segment_frame: "gps_frame s (fold draw_segment fs s)"
proof (induction fs arbitrary: s)
  case Nil
  show ?case by (simp add: gps_frame_refl)
next
  case (Cons f fs)
  show ?case
    using gps_frame_trans [OF draw_segment_frame Cons.IH] by simp
qed

lemma fold_draw_incident_frame: "gps_frame s (fold draw_incident fs s)"
proof (induction fs arbitrary: s)
  case Nil
  show ?case by (simp add: gps_frame_refl)
next
  case (Cons f fs)
  show ?case
    using gps_frame_trans [OF draw_incident_frame Cons.IH] by simp
qed

lemma field_update_frame:
  "gps_frame s (s\<lparr>rotatual := a\<rparr>)"
  "gps_frame s (s\<lparr>trafficFeatures := b\<rparr>)"
  "gps_frame s (s\<lparr>incidentFeatures := c\<rparr>)"
  "gps_frame s (s\<lparr>originMarker := d\<rparr>)"
  "gps_frame s (s\<lparr>destinationMarker := e\<rparr>)"
  "gps_frame s (s\<lparr>originCoords := f\<rparr>)"
  "gps_frame s (s\<lparr>destinationCoords := g\<rparr>)"
  by (simp_all add: gps_frame_def)

lemma clearRoute_frame: "gps_frame s (snd (clearRoute s))"
proof (cases "vectorSource s")
  case None
  then show ?thesis by (simp add: clearRoute_def gps_frame_refl)
next
  case (Some src)
  show ?thesis
  proof (cases "remove_if_set (rotatual s) s")
    case None
    with Some show ?thesis by (simp add: clearRoute_def gps_frame_refl)
  next
    case s0: (Some s0)
    have f0: "gps_frame s (s0\<lparr>rotatual := None\<rparr>)"
      using remove_if_set_frame [OF s0] by (simp add: gps_frame_def)
    show ?thesis
    proof (cases "remove_if_set (originMarker (s0\<lparr>rotatual := None\<rparr>)) (s0\<lparr>rotatual := None\<rparr>)")
      case None
      with Some s0 f0 show ?thesis by (simp add: clearRoute_def)
    next
      case s2: (Some s2)
      have f2: "gps_frame s s2"
        using gps_frame_trans [OF f0 remove_if_set_frame [OF s2]] .
      show ?thesis
      proof (cases "remove_if_set (destinationMarker (s0\<lparr>rotatual := None\<rparr>)) s2")
        case None
        with Some s0 s2 f2 show ?thesis by (simp add: clearRoute_def)
      next
        case s3: (Some s3)
        have f3: "gps_frame s s3"
          using gps_frame_trans [OF f2 remove_if_set_frame [OF s3]] .
        define s4 where "s4 = s3\<lparr>originMarker := None, destinationMarker := None\<rparr>"
        define s5 where "s5 = (fold remove_quietly (trafficFeatures s4) s4)\<lparr>trafficFeatures := []\<rparr>"
        define s6 where "s6 = (fold remove_quietly (incidentFeatures s5) s5)\<lparr>incidentFeatures := []\<rparr>"
        have f4: "gps_frame s s4" using f3 by (simp add: gps_frame_def s4_def)
        have "gps_frame s4 s5"
          using fold_remove_quietly_frame [of s4 "trafficFeatures s4"] by (simp add: gps_frame_def s5_def)
        moreover have "gps_frame s5 s6"
          using fold_remove_quietly_frame [of s5 "incidentFeatures s5"] by (simp add: gps_frame_def s6_def)
        ultimately have "gps_frame s (s6\<lparr>originCoords := None, destinationCoords := None\<rparr>)"
          using f4 by (simp add: gps_frame_def)
        moreover have "clearRoute s = (Returned, s6\<lparr>originCoords := None, destinationCoords := None\<rparr>)"
          using Some s0 s2 s3 by (simp add: clearRoute_def Let_def s4_def s5_def s6_def)
        ultimately show ?thesis by simp
      qed
    qed
  qed
qed

lemma drawRouteMarkers_frame: "gps_frame s (snd (drawRouteMarkers s))"
proof -
  have new: "\<And>f t. gps_frame t (snd (new_feature f t))"
    by (simp add: new_feature_def gps_frame_def)
  show ?thesis
    unfolding drawRouteMarkers_def
    by (auto simp: gps_frame_refl Let_def new_feature_def addFeature_def
          split: option.splits prod.splits dest!: remove_if_set_frame)
       (auto simp: gps_frame_def)
qed

lemma draw_base_route_frame: "gps_frame s (snd (draw_base_route m v s))"
  by (auto simp: draw_base_route_def gps_frame_def Let_def new_feature_def addFeature_def set_view_def
        split: option.splits gj_geometry.splits)

lemma drawTrafficSegments_frame: "gps_frame s (drawTrafficSegments fs s)"
  by (simp add: drawTrafficSegments_def gps_frame_refl fold_draw_segment_frame)

lemma drawTrafficIncidents_frame: "gps_frame s (drawTrafficIncidents fs s)"
  by (simp add: drawTrafficIncidents_def gps_frame_refl fold_draw_incident_frame)

lemma remove_previous_overlay_frame: "gps_frame s (snd (remove_previous_overlay s))"
proof (cases "remove_if_set (rotatual s) s")
  case None
  then show ?thesis by (simp add: remove_previous_overlay_def gps_frame_refl)
next
  case (Some s0)
  define s1 where "s1 = s0\<lparr>rotatual := None\<rparr>"
  have f1: "gps_frame s s1"
    using remove_if_set_frame [OF Some] by (simp add: gps_frame_def s1_def)
  obtain r2 s2 where r2: "remove_each (trafficFeatures s1) s1 = (r2, s2)"
    by (cases "remove_each (trafficFeatures s1) s1")
  define s3 where "s3 = s2\<lparr>trafficFeatures := []\<rparr>"
  have f2: "gps_frame s s2"
    using gps_frame_trans [OF f1 remove_each_frame [OF r2]] .
  then have f3: "gps_frame s s3" by (simp add: gps_frame_def s3_def)
  obtain r4 s4 where r4: "remove_each (incidentFeatures s3) s3 = (r4, s4)"
    by (cases "remove_each (incidentFeatures s3) s3")
  have f4: "gps_frame s s4"
    using gps_frame_trans [OF f3 remove_each_frame [OF r4]] .
  then have f5: "gps_frame s (s4\<lparr>incidentFeatures := []\<rparr>)" by (simp add: gps_frame_def)
  show ?thesis
    using Some r2 r4 f2 f4 f5
    by (cases r2; cases r4) (simp_all add: remove_previous_overlay_def Let_def s1_def s3_def)
qed

lemma draw_features_frame: "gps_frame s (draw_features fs v s)"
proof -
  have c1: "\<And>t xs. gps_frame s t \<Longrightarrow> gps_frame s (drawTrafficSegments xs t)"
    using gps_frame_trans [OF _ drawTrafficSegments_frame] .
  have c2: "\<And>t ys. gps_frame s t \<Longrightarrow> gps_frame s (drawTrafficIncidents ys t)"
    using gps_frame_trans [OF _ drawTrafficIncidents_frame] .
  have a: "\<And>m r t. draw_base_route m v s = (r, t) \<Longrightarrow> gps_frame s t"
    using draw_base_route_frame [of s _ v] by (metis snd_conv)
  show ?thesis
    unfolding draw_features_def
    by (auto simp: Let_def gps_frame_refl split: list.splits prod.splits intro!: c1 c2 dest: a)
qed

lemma drawRouteOnMap_frame: "gps_frame s (snd (drawRouteOnMap r s))"
proof -
  have "gps_frame s (draw_features fs v (snd (remove_previous_overlay s)))" for fs v
    using gps_frame_trans [OF remove_previous_overlay_frame draw_features_frame] .
  then show ?thesis
    using remove_previous_overlay_frame [of s]
    by (auto simp: drawRouteOnMap_def gps_frame_refl split: option.splits prod.splits outcome.splits)
qed

lemma tracking_inv_frame: "gps_frame s t \<Longrightarrow> tracking_inv s \<Longrightarrow> tracking_inv t"
  by (auto simp: gps_frame_def tracking_inv_def split: option.splits)

lemma tracking_inv_initial: "tracking_inv (initial_state geo strict fit)"
  by (simp add: tracking_inv_def initial_state_def)

lemma handlePosition_tracking:
  "watchId (snd (handlePosition pos force s)) = watchId s"
  "watches (snd (handlePosition pos force s)) = watches s"
  "hasInitialFix (snd (handlePosition pos force s)) \<Longrightarrow>
     hasInitialFix s \<or> (mapInstance s \<noteq> None \<and> vectorSource s \<noteq> None)"
  "mapInstance s \<noteq> None \<Longrightarrow> mapInstance (snd (handlePosition pos force s)) \<noteq> None"
  "vectorSource s \<noteq> None \<Longrightarrow> vectorSource (snd (handlePosition pos force s)) \<noteq> None"
  "env_geolocation (snd (handlePosition pos force s)) = env_geolocation s"
  "currentAccuracy (snd (handlePosition pos force s)) \<noteq> None \<Longrightarrow>
     currentAccuracy s \<noteq> None \<or> currentPos (snd (handlePosition pos force s)) \<noteq> None"
  "currentPos s \<noteq> None \<Longrightarrow> currentPos (snd (handlePosition pos force s)) \<noteq> None"
  by (auto simp: handlePosition_def Let_def new_feature_def addFeature_def setGeometry_def
        recentre_def set_view_def split: option.splits prod.splits if_splits)

lemma tracking_inv_handlePosition:
  assumes "tracking_inv s" "map_of (watches s) h = Some force"
  shows "tracking_inv (snd (handlePosition pos force s))"
proof -
  from assms have w: "watchId s \<noteq> None"
    by (auto simp: tracking_inv_def split: option.splits)
  show ?thesis
    using assms(1) w handlePosition_tracking [where s = s and pos = pos and force = force]
    by (auto simp: tracking_inv_def split: option.splits)
qed

lemma tracking_inv_step: "tracking_inv s \<Longrightarrow> tracking_inv (step e s)"
proof (cases e)
  case (MapReadyEv url)
  assume "tracking_inv s"
  then show ?thesis using MapReadyEv
    by (auto simp: tracking_inv_def initializeMap_rendercomplete_def split: option.splits)
next
  case (StartWatchingEv force h)
  assume "tracking_inv s"
  then show ?thesis using StartWatchingEv
    by (auto simp: tracking_inv_def getCurrentOnceAndStartWatch_def startWatching_def
          toggleFollowingState_def split: option.splits)
next
  case (PositionEv h pos)
  assume "tracking_inv s"
  then show ?thesis using PositionEv
    by (auto simp: tracking_inv_handlePosition split: option.splits)
next
  case (SensorErrorEv h code)
  assume "tracking_inv s"
  then show ?thesis using SensorErrorEv by (simp add: handleError_def)
next
  case StopWatchingEv
  assume "tracking_inv s"
  then show ?thesis using StopWatchingEv
    by (auto simp: tracking_inv_def stopWatching_def toggleFollowingState_def split: option.splits)
next
  case ToggleFollowEv
  assume "tracking_inv s"
  then show ?thesis using ToggleFollowEv
    by (auto simp: tracking_inv_def toggleFollow_def toggleFollowingState_def Let_def split: option.splits)
next
  case (MapDragEv c)
  assume "tracking_inv s"
  then show ?thesis using MapDragEv
    by (auto simp: tracking_inv_def disableFollowOnMapDrag_def toggleFollowingState_def set_view_def
          split: option.splits)
next
  case CenterEv
  assume "tracking_inv s"
  then show ?thesis using CenterEv
    by (auto simp: tracking_inv_def centerMapOnCurrentPos_def recentre_def set_view_def
          split: option.splits)
next
  case ClearRouteEv
  assume "tracking_inv s"
  then show ?thesis using ClearRouteEv tracking_inv_frame [OF clearRoute_frame] by simp
next
  case DrawRouteMarkersEv
  assume "tracking_inv s"
  then show ?thesis using DrawRouteMarkersEv tracking_inv_frame [OF drawRouteMarkers_frame] by simp
next
  case (DrawRouteEv r)
  assume "tracking_inv s"
  then show ?thesis using DrawRouteEv tracking_inv_frame [OF drawRouteOnMap_frame] by simp
next
  case (SetOriginCoordsEv c)
  assume "tracking_inv s"
  then show ?thesis using SetOriginCoordsEv by (simp add: tracking_inv_def)
next
  case (SetDestinationCoordsEv c)
  assume "tracking_inv s"
  then show ?thesis using SetDestinationCoordsEv by (simp add: tracking_inv_def)
qed

lemma tracking_inv_run: "tracking_inv s \<Longrightarrow> tracking_inv (run es s)"
  unfolding run_def by (induction es arbitrary: s) (simp_all add: tracking_inv_step)

lemma reachable_tracking_inv: "reachable s \<Longrightarrow> tracking_inv s"
  by (auto simp: reachable_def intro: tracking_inv_run tracking_inv_initial)

lemma reachable_step: "reachable s \<Longrightarrow> reachable (step e s)"
proof -
  assume "reachable s"
  then obtain geo strict fit es where "s = run es (initial_state geo strict fit)"
    by (auto simp: reachable_def)
  then have "step e s = run (es @ [e]) (initial_state geo strict fit)"
    by (simp add: run_def)
  then show ?thesis unfolding reachable_def by blast
qed

lemma reachable_run: "reachable s \<Longrightarrow> reachable (run es s)"
  unfolding run_def by (induction es arbitrary: s) (simp_all add: reachable_step)

lemma wf_initial: "wf_state (initial_state geo strict fit)"
  by (simp add: wf_state_def tracked_def route_refs_def marker_refs_def overlay_refs_def refs_def source_list_def
        kinds_ok_def initial_state_def)

lemma wf_same_features: "same_features s t \<Longrightarrow> wf_state s \<Longrightarrow> wf_state t"
  by (simp add: same_features_def wf_state_def kinds_ok_def)

lemma same_features_setGeometry: "same_features s (setGeometry u g s)"
  by (simp add: same_features_def setGeometry_def tracked_def route_refs_def marker_refs_def overlay_refs_def source_list_def)

lemma same_features_set_view: "same_features s (set_view v s)"
  by (simp add: same_features_def set_view_def tracked_def route_refs_def marker_refs_def overlay_refs_def source_list_def)

lemma vectorSource_same: "vectorSource s = x \<Longrightarrow> s\<lparr>vectorSource := x\<rparr> = s"
  by auto

lemma drop_refs_fields [simp]:
  "env_strict_remove (drop_refs us s) = env_strict_remove s"
  "(vectorSource (drop_refs us s) = None) = (vectorSource s = None)"
  "mapInstance (drop_refs us s) = mapInstance s"
  "next_uid (drop_refs us s) = next_uid s"
  "heap (drop_refs us s) = heap s"
  "markerFeature (drop_refs us s) = markerFeature s"
  "accuracyFeature (drop_refs us s) = accuracyFeature s"
  "rotatual (drop_refs us s) = rotatual s"
  "originMarker (drop_refs us s) = originMarker s"
  "destinationMarker (drop_refs us s) = destinationMarker s"
  "trafficFeatures (drop_refs us s) = trafficFeatures s"
  "incidentFeatures (drop_refs us s) = incidentFeatures s"
  by (simp_all add: drop_refs_def)

lemma source_list_drop_refs [simp]:
  "source_list (drop_refs us s) = filter (\<lambda>u. u \<notin> set us) (source_list s)"
  by (simp add: drop_refs_def source_list_def split: option.splits)

lemma drop_refs_absent:
  assumes "set us \<inter> set (source_list s) = {}"
  shows "drop_refs us s = s"
proof -
  have "map_option (filter (\<lambda>u. u \<notin> set us)) (vectorSource s) = vectorSource s"
  proof (cases "vectorSource s")
    case None
    then show ?thesis by simp
  next
    case (Some src)
    with assms have "filter (\<lambda>u. u \<notin> set us) src = src"
      by (auto simp: source_list_def filter_id_conv)
    with Some show ?thesis by simp
  qed
  then show ?thesis
    unfolding drop_refs_def by (rule vectorSource_same [OF sym])
qed

lemma drop_refs_Nil [simp]: "drop_refs [] s = s"
  by (rule drop_refs_absent) simp

lemma drop_refs_drop_refs: "drop_refs us (drop_refs vs s) = drop_refs (vs @ us) s"
proof -
  have "filter (\<lambda>u. u \<notin> set us) (filter (\<lambda>u. u \<notin> set vs) xs) = filter (\<lambda>u. u \<notin> set (vs @ us)) xs" for xs
    by (induction xs) auto
  then show ?thesis
    by (cases "vectorSource s") (simp_all add: drop_refs_def)
qed

lemma removeFeature_present:
  assumes "vectorSource s = Some src" "u \<in> set src"
  shows "removeFeature u s = Some (drop_refs [u] s)"
proof -
  have "removeAll u src = filter (\<lambda>x. x \<notin> set [u]) src"
    by (induction src) auto
  with assms show ?thesis
    by (simp add: removeFeature_def source_remove_def drop_refs_def)
qed

lemma removeFeature_absent:
  assumes "vectorSource s = Some src" "u \<notin> set src"
  shows "removeFeature u s = (if env_strict_remove s then None else Some (drop_refs [u] s))"
proof -
  have "drop_refs [u] s = s"
    using assms by (intro drop_refs_absent) (simp add: source_list_def)
  moreover have "s\<lparr>vectorSource := Some src\<rparr> = s"
    using assms(1) by (rule vectorSource_same)
  ultimately show ?thesis
    using assms by (simp add: removeFeature_def source_remove_def)
qed

lemma remove_quietly_drop: "remove_quietly u s = drop_refs [u] s"
proof (cases "vectorSource s")
  case None
  then have "drop_refs [u] s = s"
    by (intro drop_refs_absent) (simp add: source_list_def)
  with None show ?thesis by (simp add: remove_quietly_def removeFeature_def)
next
  case (Some src)
  show ?thesis
  proof (cases "u \<in> set src")
    case True
    then show ?thesis
      by (simp add: remove_quietly_def removeFeature_present [OF Some])
  next
    case False
    then have "drop_refs [u] s = s"
      using Some by (intro drop_refs_absent) (simp add: source_list_def)
    then show ?thesis
      using False by (simp add: remove_quietly_def removeFeature_absent [OF Some])
  qed
qed

lemma fold_remove_quietly_drop: "fold remove_quietly us s = drop_refs us s"
  by (induction us arbitrary: s) (simp_all add: remove_quietly_drop drop_refs_drop_refs)

lemma removeFeature_drop:
  assumes "removable [u] s"
  shows "removeFeature u s = Some (drop_refs [u] s)"
proof -
  from assms obtain src where src: "vectorSource s = Some src"
    by (auto simp: removable_def)
  show ?thesis
  proof (cases "u \<in> set src")
    case True
    then show ?thesis by (rule removeFeature_present [OF src])
  next
    case False
    with assms src have "\<not> env_strict_remove s"
      by (auto simp: removable_def source_list_def)
    with False show ?thesis by (simp add: removeFeature_absent [OF src])
  qed
qed

lemma remove_if_set_drop: "removable (refs r) s \<Longrightarrow> remove_if_set r s = Some (drop_refs (refs r) s)"
  by (cases r) (simp_all add: remove_if_set_def refs_def removeFeature_drop)

lemma removable_Cons:
  assumes "removable (u # us) s"
  shows "removable [u] s" and "removable us (drop_refs [u] s)"
  using assms by (auto simp: removable_def)

lemma removable_append:
  assumes "removable (us @ vs) s"
  shows "removable us s" and "removable vs (drop_refs us s)"
  using assms by (auto simp: removable_def)

lemma remove_each_drop: "removable us s \<Longrightarrow> remove_each us s = (Returned, drop_refs us s)"
proof (induction us arbitrary: s)
  case Nil
  then show ?case by simp
next
  case (Cons u us)
  have a: "removable [u] s" and b: "removable us (drop_refs [u] s)"
    using removable_Cons [OF Cons.prems] by simp_all
  show ?case
    using Cons.IH [OF b] removeFeature_drop [OF a] by (simp add: drop_refs_drop_refs)
qed

lemma removable_update [simp]:
  "removable us (s\<lparr>rotatual := a\<rparr>) = removable us s"
  "removable us (s\<lparr>trafficFeatures := b\<rparr>) = removable us s"
  "removable us (s\<lparr>incidentFeatures := c\<rparr>) = removable us s"
  "removable us (s\<lparr>originMarker := d\<rparr>) = removable us s"
  "removable us (s\<lparr>destinationMarker := e\<rparr>) = removable us s"
  by (simp_all add: removable_def source_list_def)

lemma drop_refs_update:
  "drop_refs us (s\<lparr>rotatual := a\<rparr>) = (drop_refs us s)\<lparr>rotatual := a\<rparr>"
  "drop_refs us (s\<lparr>trafficFeatures := b\<rparr>) = (drop_refs us s)\<lparr>trafficFeatures := b\<rparr>"
  "drop_refs us (s\<lparr>incidentFeatures := c\<rparr>) = (drop_refs us s)\<lparr>incidentFeatures := c\<rparr>"
  "drop_refs us (s\<lparr>originMarker := d\<rparr>) = (drop_refs us s)\<lparr>originMarker := d\<rparr>"
  "drop_refs us (s\<lparr>destinationMarker := e\<rparr>) = (drop_refs us s)\<lparr>destinationMarker := e\<rparr>"
  by (simp_all add: drop_refs_def)

lemma clearRoute_closed:
  assumes "removable (marker_refs s) s"
  shows "clearRoute s = (Returned, cleared s)"
proof -
  from assms obtain src where src: "vectorSource s = Some src"
    by (auto simp: removable_def)
  let ?R = "refs (rotatual s)" and ?O = "refs (originMarker s)" and ?D = "refs (destinationMarker s)"
  have all: "removable (?R @ ?O @ ?D) s"
    using assms by (simp add: marker_refs_def)
  have r: "removable ?R s" and od: "removable (?O @ ?D) (drop_refs ?R s)"
    using removable_append [OF all] by simp_all
  have o: "removable ?O (drop_refs ?R s)" and d: "removable ?D (drop_refs ?O (drop_refs ?R s))"
    using removable_append [OF od] by simp_all
  have e0: "remove_if_set (rotatual s) s = Some (drop_refs ?R s)"
    by (rule remove_if_set_drop [OF r])
  define s1 where "s1 = (drop_refs ?R s)\<lparr>rotatual := None\<rparr>"
  have e1: "remove_if_set (originMarker s1) s1 = Some (drop_refs ?O s1)"
    using remove_if_set_drop [of "originMarker s" s1] o by (simp add: s1_def)
  have e2: "remove_if_set (destinationMarker s1) (drop_refs ?O s1) = Some (drop_refs ?D (drop_refs ?O s1))"
    using remove_if_set_drop [of "destinationMarker s" "drop_refs ?O s1"] d
    by (simp add: s1_def drop_refs_update)
  have f: "trafficFeatures s1 = trafficFeatures s" "incidentFeatures s1 = incidentFeatures s"
    by (simp_all add: s1_def)
  have "clearRoute s = (Returned,
          (drop_refs (incidentFeatures s) ((drop_refs (trafficFeatures s)
             ((drop_refs ?D (drop_refs ?O s1))\<lparr>originMarker := None, destinationMarker := None\<rparr>))
               \<lparr>trafficFeatures := []\<rparr>))
            \<lparr>incidentFeatures := [], originCoords := None, destinationCoords := None\<rparr>)"
    using src e0 e1 e2
    by (simp add: clearRoute_def Let_def s1_def [symmetric] fold_remove_quietly_drop f)
  also have "\<dots> = (Returned, cleared s)"
    by (simp add: cleared_def s1_def drop_refs_update drop_refs_drop_refs route_refs_def marker_refs_def)
  finally show ?thesis .
qed

lemma remove_previous_overlay_closed:
  assumes "removable (overlay_refs s) s"
  shows "remove_previous_overlay s = (Returned, overlay_removed s)"
proof -
  let ?R = "refs (rotatual s)"
  have all: "removable (?R @ trafficFeatures s @ incidentFeatures s) s"
    using assms by (simp add: overlay_refs_def)
  have r: "removable ?R s" and ti: "removable (trafficFeatures s @ incidentFeatures s) (drop_refs ?R s)"
    using removable_append [OF all] by simp_all
  have t: "removable (trafficFeatures s) (drop_refs ?R s)"
    and i: "removable (incidentFeatures s) (drop_refs (trafficFeatures s) (drop_refs ?R s))"
    using removable_append [OF ti] by simp_all
  have e0: "remove_if_set (rotatual s) s = Some (drop_refs ?R s)"
    by (rule remove_if_set_drop [OF r])
  define s1 where "s1 = (drop_refs ?R s)\<lparr>rotatual := None\<rparr>"
  have f: "trafficFeatures s1 = trafficFeatures s" "incidentFeatures s1 = incidentFeatures s"
    by (simp_all add: s1_def)
  have e1: "remove_each (trafficFeatures s) s1 = (Returned, drop_refs (trafficFeatures s) s1)"
    using remove_each_drop [of "trafficFeatures s" s1] t by (simp add: s1_def)
  define s3 where "s3 = (drop_refs (trafficFeatures s) s1)\<lparr>trafficFeatures := []\<rparr>"
  have g: "incidentFeatures s3 = incidentFeatures s"
    by (simp add: s3_def s1_def)
  have e2: "remove_each (incidentFeatures s) s3 = (Returned, drop_refs (incidentFeatures s) s3)"
    using remove_each_drop [of "incidentFeatures s" s3] i by (simp add: s3_def s1_def drop_refs_update)
  have "remove_previous_overlay s = (Returned, (drop_refs (incidentFeatures s) s3)\<lparr>incidentFeatures := []\<rparr>)"
    using e0 e1 e2
    by (simp add: remove_previous_overlay_def Let_def s1_def [symmetric] f s3_def [symmetric] g)
  also have "\<dots> = (Returned, overlay_removed s)"
    by (simp add: overlay_removed_def s3_def s1_def drop_refs_update drop_refs_drop_refs overlay_refs_def)
  finally show ?thesis .
qed

lemma refs_simps [simp]: "refs None = []" "refs (Some u) = [u]"
  by (simp_all add: refs_def)

lemma wf_removable:
  assumes "wf_state s" "vectorSource s \<noteq> None"
  shows "removable (marker_refs s) s" and "removable (overlay_refs s) s"
proof -
  have d: "distinct (tracked s)" and e: "set (source_list s) = set (tracked s)"
    using assms(1) by (simp_all add: wf_state_def)
  have "distinct (marker_refs s)" "set (marker_refs s) \<subseteq> set (tracked s)"
    using d by (auto simp: tracked_def route_refs_def)
  then show "removable (marker_refs s) s"
    using assms(2) e by (simp add: removable_def)
  have "distinct (overlay_refs s)" "set (overlay_refs s) \<subseteq> set (tracked s)"
    using d by (auto simp: tracked_def route_refs_def marker_refs_def overlay_refs_def)
  then show "removable (overlay_refs s) s"
    using assms(2) e by (simp add: removable_def)
qed

lemma wf_drop:
  assumes "wf_state s"
    and "source_list t = filter (\<lambda>u. u \<notin> set us) (source_list s)"
    and "set (tracked t) = set (tracked s) - set us" "distinct (tracked t)"
    and "next_uid t = next_uid s"
    and "(mapInstance t = None) = (mapInstance s = None)"
    and "(vectorSource t = None) = (vectorSource s = None)"
    and "kinds_ok t"
  shows "wf_state t"
proof -
  have "distinct (source_list t)"
    using assms(1,2) by (simp add: wf_state_def)
  moreover have "set (source_list t) = set (tracked t)"
    using assms(1,2,3) by (auto simp: wf_state_def)
  moreover have "\<forall>u\<in>set (tracked t). u < next_uid t"
    using assms(1,3,5) by (simp add: wf_state_def)
  moreover have "(mapInstance t = None) = (vectorSource t = None)"
    using assms(1,6,7) by (simp add: wf_state_def)
  ultimately show ?thesis
    using assms(4,8) by (simp add: wf_state_def)
qed

lemma wf_track:
  assumes "wf_state s" "vectorSource s \<noteq> None"
    and "source_list t = source_list s @ [next_uid s]"
    and "set (tracked t) = insert (next_uid s) (set (tracked s))"
    and "length (tracked t) = Suc (length (tracked s))"
    and "next_uid t = Suc (next_uid s)"
    and "mapInstance t = mapInstance s" "vectorSource t \<noteq> None"
    and "kinds_ok t"
  shows "wf_state t"
proof -
  have fresh: "next_uid s \<notin> set (tracked s)"
    using assms(1) by (auto simp: wf_state_def)
  have "card (set (tracked t)) = Suc (card (set (tracked s)))"
    using fresh assms(4) by simp
  also have "\<dots> = length (tracked t)"
    using assms(1,5) by (simp add: wf_state_def distinct_card)
  finally have "distinct (tracked t)" by (rule card_distinct)
  moreover have "distinct (source_list t)"
    using assms(1,3) fresh by (simp add: wf_state_def)
  moreover have "set (source_list t) = set (tracked t)"
    using assms(1,3,4) by (auto simp: wf_state_def)
  moreover have "\<forall>u\<in>set (tracked t). u < next_uid t"
    using assms(1,4,6) by (auto simp: wf_state_def less_Suc_eq)
  moreover have "(mapInstance t = None) = (vectorSource t = None)"
    using assms(1,2,7,8) by (auto simp: wf_state_def)
  ultimately show ?thesis
    using assms(9) by (simp add: wf_state_def)
qed

lemma wf_cleared:
  assumes "wf_state s"
  shows "wf_state (cleared s)"
proof (rule wf_drop [OF assms, where us = "route_refs s"])
  let ?G = "refs (markerFeature s) @ refs (accuracyFeature s)"
  have ts: "tracked s = ?G @ route_refs s"
    by (simp add: tracked_def)
  have tc: "tracked (cleared s) = ?G"
    by (simp add: tracked_def cleared_def route_refs_def marker_refs_def)
  have d: "distinct (?G @ route_refs s)"
    using assms ts by (simp add: wf_state_def)
  show "source_list (cleared s) = filter (\<lambda>u. u \<notin> set (route_refs s)) (source_list s)"
    using source_list_drop_refs [of "route_refs s" s]
    by (simp add: cleared_def source_list_def)
  show "set (tracked (cleared s)) = set (tracked s) - set (route_refs s)"
    unfolding ts tc using d by auto
  show "distinct (tracked (cleared s))"
    unfolding tc using d by auto
  show "kinds_ok (cleared s)"
    using assms by (simp add: wf_state_def kinds_ok_def cleared_def)
qed (simp_all add: cleared_def)

lemma wf_overlay_removed:
  assumes "wf_state s"
  shows "wf_state (overlay_removed s)"
proof (rule wf_drop [OF assms, where us = "overlay_refs s"])
  let ?G = "refs (markerFeature s) @ refs (accuracyFeature s)"
  let ?M = "refs (originMarker s) @ refs (destinationMarker s)"
  have ts: "tracked s = ?G @ refs (rotatual s) @ ?M @ trafficFeatures s @ incidentFeatures s"
    by (simp add: tracked_def route_refs_def marker_refs_def)
  have os: "overlay_refs s = refs (rotatual s) @ trafficFeatures s @ incidentFeatures s"
    by (simp add: overlay_refs_def)
  have tc: "tracked (overlay_removed s) = ?G @ ?M"
    by (simp add: tracked_def overlay_removed_def route_refs_def marker_refs_def)
  have d: "distinct (?G @ refs (rotatual s) @ ?M @ trafficFeatures s @ incidentFeatures s)"
    using assms ts by (simp add: wf_state_def)
  show "source_list (overlay_removed s) = filter (\<lambda>u. u \<notin> set (overlay_refs s)) (source_list s)"
    using source_list_drop_refs [of "overlay_refs s" s]
    by (simp add: overlay_removed_def source_list_def)
  show "set (tracked (overlay_removed s)) = set (tracked s) - set (overlay_refs s)"
    unfolding ts tc os using d by auto
  show "distinct (tracked (overlay_removed s))"
    unfolding tc using d by auto
  show "kinds_ok (overlay_removed s)"
    using assms by (simp add: wf_state_def kinds_ok_def overlay_removed_def)
qed (simp_all add: overlay_removed_def)

lemma wf_clearRoute: "wf_state s \<Longrightarrow> wf_state (snd (clearRoute s))"
proof (cases "vectorSource s")
  case None
  assume "wf_state s"
  with None show ?thesis by (simp add: clearRoute_def)
next
  case (Some src)
  assume w: "wf_state s"
  then have "removable (marker_refs s) s"
    using Some by (intro wf_removable) simp_all
  then show ?thesis
    using wf_cleared [OF w] by (simp add: clearRoute_closed)
qed

lemma wf_remove_previous_overlay:
  "wf_state s \<Longrightarrow> vectorSource s \<noteq> None \<Longrightarrow> wf_state (snd (remove_previous_overlay s))"
  using wf_removable(2) [of s] wf_overlay_removed [of s]
  by (simp add: remove_previous_overlay_closed)

lemma new_feature_add_new:
  "(case new_feature f s of (u, t) \<Rightarrow> g u (addFeature u t)) = g (next_uid s) (add_new f s)"
  by (simp add: add_new_def new_feature_def)

lemma add_new_fields [simp]:
  "next_uid (add_new f s) = Suc (next_uid s)"
  "heap (add_new f s) = (heap s)(next_uid s := f)"
  "mapInstance (add_new f s) = mapInstance s"
  "(vectorSource (add_new f s) = None) = (vectorSource s = None)"
  "markerFeature (add_new f s) = markerFeature s"
  "accuracyFeature (add_new f s) = accuracyFeature s"
  "rotatual (add_new f s) = rotatual s"
  "originMarker (add_new f s) = originMarker s"
  "destinationMarker (add_new f s) = destinationMarker s"
  "trafficFeatures (add_new f s) = trafficFeatures s"
  "incidentFeatures (add_new f s) = incidentFeatures s"
  "env_strict_remove (add_new f s) = env_strict_remove s"
  by (simp_all add: add_new_def new_feature_def addFeature_def)

lemma source_list_add_new [simp]:
  "vectorSource s \<noteq> None \<Longrightarrow> source_list (add_new f s) = source_list s @ [next_uid s]"
  by (auto simp: add_new_def new_feature_def addFeature_def source_list_def)

lemma source_list_update [simp]:
  "source_list (s\<lparr>markerFeature := a\<rparr>) = source_list s"
  "source_list (s\<lparr>accuracyFeature := b\<rparr>) = source_list s"
  "source_list (s\<lparr>rotatual := c\<rparr>) = source_list s"
  "source_list (s\<lparr>originMarker := d\<rparr>) = source_list s"
  "source_list (s\<lparr>destinationMarker := e\<rparr>) = source_list s"
  "source_list (s\<lparr>trafficFeatures := g\<rparr>) = source_list s"
  "source_list (s\<lparr>incidentFeatures := h\<rparr>) = source_list s"
  by (simp_all add: source_list_def)

lemma wf_old_kind:
  "wf_state s \<Longrightarrow> u \<in> set (tracked s) \<Longrightarrow> kind (((heap s)(next_uid s := f)) u) = kind (heap s u)"
  by (auto simp: wf_state_def)

lemma wf_new_marker:
  assumes "wf_state s" "vectorSource s \<noteq> None" "markerFeature s = None" "kind f = PositionMarker"
  shows "wf_state ((add_new f s)\<lparr>markerFeature := Some (next_uid s)\<rparr>)"
proof (rule wf_track [OF assms(1,2)])
  show "kinds_ok ((add_new f s)\<lparr>markerFeature := Some (next_uid s)\<rparr>)"
    using assms(1,4) wf_old_kind [OF assms(1)]
    by (simp add: kinds_ok_def wf_state_def tracked_def route_refs_def marker_refs_def)
qed (simp_all add: assms tracked_def route_refs_def marker_refs_def)

lemma wf_new_accuracy:
  assumes "wf_state s" "vectorSource s \<noteq> None" "accuracyFeature s = None" "kind f = AccuracyCircle"
  shows "wf_state ((add_new f s)\<lparr>accuracyFeature := Some (next_uid s)\<rparr>)"
proof (rule wf_track [OF assms(1,2)])
  show "kinds_ok ((add_new f s)\<lparr>accuracyFeature := Some (next_uid s)\<rparr>)"
    using assms(1,4) wf_old_kind [OF assms(1)]
    by (simp add: kinds_ok_def wf_state_def tracked_def route_refs_def marker_refs_def)
qed (simp_all add: assms tracked_def route_refs_def marker_refs_def)

lemma wf_new_rotatual:
  assumes "wf_state s" "vectorSource s \<noteq> None" "rotatual s = None" "kind f = RouteLine"
  shows "wf_state ((add_new f s)\<lparr>rotatual := Some (next_uid s)\<rparr>)"
proof (rule wf_track [OF assms(1,2)])
  show "kinds_ok ((add_new f s)\<lparr>rotatual := Some (next_uid s)\<rparr>)"
    using assms(1,4) wf_old_kind [OF assms(1)]
    by (simp add: kinds_ok_def wf_state_def tracked_def route_refs_def marker_refs_def)
qed (simp_all add: assms tracked_def route_refs_def marker_refs_def)

lemma wf_new_originMarker:
  assumes "wf_state s" "vectorSource s \<noteq> None" "originMarker s = None" "kind f = OriginMarker"
  shows "wf_state ((add_new f s)\<lparr>originMarker := Some (next_uid s)\<rparr>)"
proof (rule wf_track [OF assms(1,2)])
  show "kinds_ok ((add_new f s)\<lparr>originMarker := Some (next_uid s)\<rparr>)"
    using assms(1,4) wf_old_kind [OF assms(1)]
    by (simp add: kinds_ok_def wf_state_def tracked_def route_refs_def marker_refs_def)
qed (simp_all add: assms tracked_def route_refs_def marker_refs_def)

lemma wf_new_destinationMarker:
  assumes "wf_state s" "vectorSource s \<noteq> None" "destinationMarker s = None" "kind f = DestinationMarker"
  shows "wf_state ((add_new f s)\<lparr>destinationMarker := Some (next_uid s)\<rparr>)"
proof (rule wf_track [OF assms(1,2)])
  show "kinds_ok ((add_new f s)\<lparr>destinationMarker := Some (next_uid s)\<rparr>)"
    using assms(1,4) wf_old_kind [OF assms(1)]
    by (simp add: kinds_ok_def wf_state_def tracked_def route_refs_def marker_refs_def)
qed (simp_all add: assms tracked_def route_refs_def marker_refs_def)

lemma wf_new_traffic:
  assumes "wf_state s" "vectorSource s \<noteq> None" "kind f = TrafficSegment"
  shows "wf_state ((add_new f s)\<lparr>trafficFeatures := trafficFeatures s @ [next_uid s]\<rparr>)"
proof (rule wf_track [OF assms(1,2)])
  show "kinds_ok ((add_new f s)\<lparr>trafficFeatures := trafficFeatures s @ [next_uid s]\<rparr>)"
    using assms(1,3) wf_old_kind [OF assms(1)]
    by (simp add: kinds_ok_def wf_state_def tracked_def route_refs_def marker_refs_def)
qed (simp_all add: assms tracked_def route_refs_def marker_refs_def)

lemma wf_new_incident:
  assumes "wf_state s" "vectorSource s \<noteq> None" "kind f = Incident"
  shows "wf_state ((add_new f s)\<lparr>incidentFeatures := incidentFeatures s @ [next_uid s]\<rparr>)"
proof (rule wf_track [OF assms(1,2)])
  show "kinds_ok ((add_new f s)\<lparr>incidentFeatures := incidentFeatures s @ [next_uid s]\<rparr>)"
    using assms(1,3) wf_old_kind [OF assms(1)]
    by (simp add: kinds_ok_def wf_state_def tracked_def route_refs_def marker_refs_def)
qed (simp_all add: assms tracked_def route_refs_def marker_refs_def)

lemma same_features_sym: "same_features s t \<Longrightarrow> same_features t s"
  by (simp add: same_features_def)

lemma wf_state_cong: "same_features s t \<Longrightarrow> wf_state t = wf_state s"
  using wf_same_features [of s t] wf_same_features [of t s] same_features_sym [of s t] by blast

lemma same_features_update:
  "same_features s (s\<lparr>currentPos := a\<rparr>)"
  "same_features s (s\<lparr>currentAccuracy := b\<rparr>)"
  "same_features s (s\<lparr>hasInitialFix := c\<rparr>)"
  "same_features s (s\<lparr>following := d\<rparr>)"
  "same_features s (s\<lparr>watchId := e\<rparr>)"
  "same_features s (s\<lparr>watches := f\<rparr>)"
  "same_features s (s\<lparr>originCoords := g\<rparr>)"
  "same_features s (s\<lparr>destinationCoords := h\<rparr>)"
  by (simp_all add: same_features_def tracked_def route_refs_def marker_refs_def source_list_def)

lemma wf_state_update [simp]:
  "wf_state (s\<lparr>currentPos := a\<rparr>) = wf_state s"
  "wf_state (s\<lparr>currentAccuracy := b\<rparr>) = wf_state s"
  "wf_state (s\<lparr>hasInitialFix := c\<rparr>) = wf_state s"
  "wf_state (s\<lparr>following := d\<rparr>) = wf_state s"
  "wf_state (s\<lparr>watchId := e\<rparr>) = wf_state s"
  "wf_state (s\<lparr>watches := f\<rparr>) = wf_state s"
  "wf_state (s\<lparr>originCoords := g\<rparr>) = wf_state s"
  "wf_state (s\<lparr>destinationCoords := h\<rparr>) = wf_state s"
  "wf_state (setGeometry u ge s) = wf_state s"
  "wf_state (set_view v s) = wf_state s"
  by (simp_all add: wf_state_cong same_features_update same_features_setGeometry same_features_set_view)

lemma setGeometry_fields [simp]:
  "vectorSource (setGeometry u g s) = vectorSource s"
  "mapInstance (setGeometry u g s) = mapInstance s"
  "markerFeature (setGeometry u g s) = markerFeature s"
  "accuracyFeature (setGeometry u g s) = accuracyFeature s"
  "hasInitialFix (setGeometry u g s) = hasInitialFix s"
  "following (setGeometry u g s) = following s"
  by (simp_all add: setGeometry_def)

lemma add_new_source: "vectorSource s \<noteq> None \<Longrightarrow> vectorSource (add_new f s) \<noteq> None"
  by simp

lemma place_marker_fields [simp]:
  "(vectorSource (place_marker c s) = None) = (vectorSource s = None)"
  "mapInstance (place_marker c s) = mapInstance s"
  "accuracyFeature (place_marker c s) = accuracyFeature s"
  "hasInitialFix (place_marker c s) = hasInitialFix s"
  "following (place_marker c s) = following s"
  by (simp_all add: place_marker_def add_new_def new_feature_def addFeature_def split: option.splits)

lemma place_circle_fields [simp]:
  "(vectorSource (place_circle c a s) = None) = (vectorSource s = None)"
  "mapInstance (place_circle c a s) = mapInstance s"
  "markerFeature (place_circle c a s) = markerFeature s"
  "hasInitialFix (place_circle c a s) = hasInitialFix s"
  "following (place_circle c a s) = following s"
  by (simp_all add: place_circle_def add_new_def new_feature_def addFeature_def split: option.splits)

lemma located_fields [simp]:
  "(vectorSource (located pos s) = None) = (vectorSource s = None)"
  "mapInstance (located pos s) = mapInstance s"
  "hasInitialFix (located pos s) = hasInitialFix s"
  "following (located pos s) = following s"
  by (simp_all add: located_def)

lemma wf_place_marker: "wf_state s \<Longrightarrow> vectorSource s \<noteq> None \<Longrightarrow> wf_state (place_marker c s)"
  by (cases "markerFeature s") (simp_all add: place_marker_def wf_new_marker)

lemma wf_place_circle: "wf_state s \<Longrightarrow> vectorSource s \<noteq> None \<Longrightarrow> wf_state (place_circle c a s)"
  by (cases "accuracyFeature s") (simp_all add: place_circle_def wf_new_accuracy)

lemma wf_located: "wf_state s \<Longrightarrow> vectorSource s \<noteq> None \<Longrightarrow> wf_state (located pos s)"
  unfolding located_def by (intro wf_place_circle wf_place_marker) simp_all

text \<open>\<^verbatim>\<open>handlePosition\<close> in closed form, for an accepted callback.\<close>

lemma handlePosition_accepted:
  assumes "mapInstance s = Some view" "vectorSource s = Some src"
  shows "handlePosition pos force s =
     (let coord = fromLonLat (longitude pos, latitude pos); acc = accuracy pos; t = located pos s;
          centred = set_view \<lparr>center = coord, zoom = max 16 (zoom view)\<rparr> t;
          moves = [SetCenter coord, SetZoom (max 16 (zoom view))]
      in if \<not> hasInitialFix s then
           (moves @ [UpdateStatus (InitialFix acc)], centred\<lparr>hasInitialFix := True\<rparr>)
         else if (markerFeature s = None \<or> force \<or> isFollowing s) \<and> acc \<le> 150 then
           (moves @ [UpdateStatus (GpsActive acc (isFollowing s))], centred)
         else if acc > 150 then ([UpdateStatus (LowPrecision acc)], t)
         else ([UpdateStatus (GpsActive acc (isFollowing s))], t))"
proof -
  have "markerFeature s = None \<or> (\<exists>m. markerFeature s = Some m)"
    and "accuracyFeature s = None \<or> (\<exists>a. accuracyFeature s = Some a)"
    by auto
  then show ?thesis
    using assms
    by (elim disjE exE)
       (simp_all add: handlePosition_def Let_def recentre_def located_def
          place_marker_def place_circle_def add_new_def new_feature_def addFeature_def
          setGeometry_def set_view_def isFollowing_def
          GPS_RELIABLE_THRESHOLD_def ENABLE_AUTO_CENTER_ON_START_def)
qed

lemma handlePosition_rejected:
  "mapInstance s = None \<or> vectorSource s = None \<Longrightarrow>
   handlePosition pos force s = ([UpdateStatus MapNotInitialised], s)"
  by (auto simp: handlePosition_def split: option.splits)

lemma wf_handlePosition: "wf_state s \<Longrightarrow> wf_state (snd (handlePosition pos force s))"
proof (cases "mapInstance s = None \<or> vectorSource s = None")
  case True
  assume "wf_state s"
  with True show ?thesis by (simp add: handlePosition_rejected)
next
  case False
  assume w: "wf_state s"
  from False obtain view src where v: "mapInstance s = Some view" "vectorSource s = Some src"
    by auto
  have "wf_state (located pos s)"
    using w v by (intro wf_located) simp_all
  then show ?thesis
    by (simp add: handlePosition_accepted [OF v] Let_def)
qed

lemma wf_markers_removed:
  assumes "wf_state s"
  shows "wf_state (markers_removed s)"
proof (rule wf_drop [OF assms, where us = "refs (originMarker s) @ refs (destinationMarker s)"])
  let ?G = "refs (markerFeature s) @ refs (accuracyFeature s) @ refs (rotatual s)"
  let ?M = "refs (originMarker s) @ refs (destinationMarker s)"
  let ?T = "trafficFeatures s @ incidentFeatures s"
  have ts: "tracked s = ?G @ ?M @ ?T"
    by (simp add: tracked_def route_refs_def marker_refs_def)
  have tc: "tracked (markers_removed s) = ?G @ ?T"
    by (simp add: tracked_def markers_removed_def route_refs_def marker_refs_def)
  have d: "distinct (?G @ ?M @ ?T)"
    using assms ts by (simp add: wf_state_def)
  show "source_list (markers_removed s) = filter (\<lambda>u. u \<notin> set ?M) (source_list s)"
    using source_list_drop_refs [of ?M s]
    by (simp add: markers_removed_def)
  show "set (tracked (markers_removed s)) = set (tracked s) - set ?M"
    unfolding ts tc using d by auto
  show "distinct (tracked (markers_removed s))"
    unfolding tc using d by auto
  show "kinds_ok (markers_removed s)"
    using assms by (simp add: wf_state_def kinds_ok_def markers_removed_def)
qed (simp_all add: markers_removed_def)

lemma drawRouteMarkers_closed:
  assumes "removable (refs (originMarker s) @ refs (destinationMarker s)) s"
    and "originCoords s = Some oc" "destinationCoords s = Some dc"
  shows "drawRouteMarkers s =
     (Returned,
      (add_new \<lparr>kind = DestinationMarker, geom = PointGeom (fromLonLat dc)\<rparr>
         ((add_new \<lparr>kind = OriginMarker, geom = PointGeom (fromLonLat oc)\<rparr> (markers_removed s))
            \<lparr>originMarker := Some (next_uid s)\<rparr>))
        \<lparr>destinationMarker := Some (Suc (next_uid s))\<rparr>)"
proof -
  from assms(1) obtain src where src: "vectorSource s = Some src"
    by (auto simp: removable_def)
  let ?O = "refs (originMarker s)" and ?D = "refs (destinationMarker s)"
  have o: "removable ?O s" and d: "removable ?D (drop_refs ?O s)"
    using removable_append [OF assms(1)] by simp_all
  have e1: "remove_if_set (originMarker s) s = Some (drop_refs ?O s)"
    by (rule remove_if_set_drop [OF o])
  have e2: "remove_if_set (destinationMarker s) (drop_refs ?O s) = Some (drop_refs ?D (drop_refs ?O s))"
    using remove_if_set_drop [of "destinationMarker s" "drop_refs ?O s"] d by simp
  show ?thesis
    using src assms(2,3) e1 e2
    by (simp add: drawRouteMarkers_def Let_def drop_refs_drop_refs markers_removed_def)
       (simp add: new_feature_def add_new_def addFeature_def drop_refs_def)
qed

lemma wf_drawRouteMarkers: "wf_state s \<Longrightarrow> wf_state (snd (drawRouteMarkers s))"
proof (cases "vectorSource s = None \<or> originCoords s = None \<or> destinationCoords s = None")
  case True
  assume "wf_state s"
  with True show ?thesis by (auto simp: drawRouteMarkers_def split: option.splits)
next
  case False
  assume w: "wf_state s"
  from False obtain oc dc where c: "originCoords s = Some oc" "destinationCoords s = Some dc"
    and n: "vectorSource s \<noteq> None"
    by auto
  have "removable (marker_refs s) s"
    using w n by (rule wf_removable)
  then have r: "removable (refs (originMarker s) @ refs (destinationMarker s)) s"
    by (auto simp: removable_def marker_refs_def)
  let ?m = "markers_removed s"
  have wm: "wf_state ?m" and nm: "vectorSource ?m \<noteq> None" and um: "next_uid ?m = next_uid s"
    using wf_markers_removed [OF w] n by (simp_all add: markers_removed_def)
  let ?a = "(add_new \<lparr>kind = OriginMarker, geom = PointGeom (fromLonLat oc)\<rparr> ?m)\<lparr>originMarker := Some (next_uid s)\<rparr>"
  have wa: "wf_state ?a"
    using wf_new_originMarker [OF wm nm, of "\<lparr>kind = OriginMarker, geom = PointGeom (fromLonLat oc)\<rparr>"]
    by (simp add: um markers_removed_def)
  have na: "vectorSource ?a \<noteq> None" "destinationMarker ?a = None" "next_uid ?a = Suc (next_uid s)"
    using nm by (simp_all add: um) (simp add: markers_removed_def)
  have "wf_state ((add_new \<lparr>kind = DestinationMarker, geom = PointGeom (fromLonLat dc)\<rparr> ?a)
          \<lparr>destinationMarker := Some (Suc (next_uid s))\<rparr>)"
    using wf_new_destinationMarker [OF wa na(1,2), of "\<lparr>kind = DestinationMarker, geom = PointGeom (fromLonLat dc)\<rparr>"]
    by (simp add: na(3))
  then show ?thesis
    by (simp add: drawRouteMarkers_closed [OF r c])
qed

lemma draw_segment_closed:
  "draw_segment f s =
     (if segment_drawable f
      then (add_new \<lparr>kind = TrafficSegment, geom = FromGeoJSON f\<rparr> s)
             \<lparr>trafficFeatures := trafficFeatures s @ [next_uid s]\<rparr>
      else s)"
  by (simp add: draw_segment_def Let_def add_new_def new_feature_def addFeature_def del: segment_drawable.simps)

lemma draw_incident_closed:
  "draw_incident f s =
     (if incident_drawable f
      then (add_new \<lparr>kind = Incident, geom = FromGeoJSON f\<rparr> s)
             \<lparr>incidentFeatures := incidentFeatures s @ [next_uid s]\<rparr>
      else s)"
  by (simp add: draw_incident_def Let_def add_new_def new_feature_def addFeature_def del: incident_drawable.simps)

lemma wf_draw_segment:
  assumes "wf_state s" "vectorSource s \<noteq> None"
  shows "wf_state (draw_segment f s)" "vectorSource (draw_segment f s) \<noteq> None"
  using assms wf_new_traffic [OF assms, of "\<lparr>kind = TrafficSegment, geom = FromGeoJSON f\<rparr>"]
  by (simp_all add: draw_segment_closed del: segment_drawable.simps not_None_eq)

lemma wf_draw_incident:
  assumes "wf_state s" "vectorSource s \<noteq> None"
  shows "wf_state (draw_incident f s)" "vectorSource (draw_incident f s) \<noteq> None"
  using assms wf_new_incident [OF assms, of "\<lparr>kind = Incident, geom = FromGeoJSON f\<rparr>"]
  by (simp_all add: draw_incident_closed del: incident_drawable.simps not_None_eq)

lemma wf_fold_draw_segment:
  "wf_state s \<Longrightarrow> vectorSource s \<noteq> None \<Longrightarrow>
   wf_state (fold draw_segment fs s) \<and> vectorSource (fold draw_segment fs s) \<noteq> None"
  by (induction fs arbitrary: s) (simp_all add: wf_draw_segment del: not_None_eq)

lemma wf_fold_draw_incident:
  "wf_state s \<Longrightarrow> vectorSource s \<noteq> None \<Longrightarrow>
   wf_state (fold draw_incident fs s) \<and> vectorSource (fold draw_incident fs s) \<noteq> None"
  by (induction fs arbitrary: s) (simp_all add: wf_draw_incident del: not_None_eq)

lemma wf_drawTrafficSegments:
  "wf_state s \<Longrightarrow> vectorSource s \<noteq> None \<Longrightarrow>
   wf_state (drawTrafficSegments fs s) \<and> vectorSource (drawTrafficSegments fs s) \<noteq> None"
  by (simp add: drawTrafficSegments_def wf_fold_draw_segment del: not_None_eq)

lemma wf_drawTrafficIncidents:
  "wf_state s \<Longrightarrow> vectorSource s \<noteq> None \<Longrightarrow>
   wf_state (drawTrafficIncidents fs s) \<and> vectorSource (drawTrafficIncidents fs s) \<noteq> None"
  by (simp add: drawTrafficIncidents_def wf_fold_draw_incident del: not_None_eq)

lemma draw_base_route_closed:
  "draw_base_route m view s =
     (case geometry m of
        Some GUnreadable \<Rightarrow> (Thrown, s)
      | None \<Rightarrow> (Thrown, (add_new \<lparr>kind = RouteLine, geom = NullGeometry\<rparr> s)\<lparr>rotatual := Some (next_uid s)\<rparr>)
      | Some g \<Rightarrow>
          (let s1 = (add_new \<lparr>kind = RouteLine, geom = FromGeoJSON m\<rparr> s)\<lparr>rotatual := Some (next_uid s)\<rparr>
           in case env_fit s (FromGeoJSON m) view of
                None \<Rightarrow> (Thrown, s1)
              | Some view' \<Rightarrow> (Returned, set_view view' s1)))"
  by (simp add: draw_base_route_def Let_def add_new_def new_feature_def addFeature_def
        split: option.splits gj_geometry.splits)

lemma set_view_fields [simp]:
  "vectorSource (set_view v s) = vectorSource s"
  "next_uid (set_view v s) = next_uid s"
  "heap (set_view v s) = heap s"
  "markerFeature (set_view v s) = markerFeature s"
  "accuracyFeature (set_view v s) = accuracyFeature s"
  "rotatual (set_view v s) = rotatual s"
  "originMarker (set_view v s) = originMarker s"
  "destinationMarker (set_view v s) = destinationMarker s"
  "trafficFeatures (set_view v s) = trafficFeatures s"
  "incidentFeatures (set_view v s) = incidentFeatures s"
  "env_fit (set_view v s) = env_fit s"
  by (simp_all add: set_view_def)

lemma wf_draw_base_route:
  assumes "wf_state s" "vectorSource s \<noteq> None" "rotatual s = None"
  shows "wf_state (snd (draw_base_route m view s))"
    and "vectorSource (snd (draw_base_route m view s)) \<noteq> None"
  using assms wf_new_rotatual [OF assms, of "\<lparr>kind = RouteLine, geom = NullGeometry\<rparr>"]
    wf_new_rotatual [OF assms, of "\<lparr>kind = RouteLine, geom = FromGeoJSON m\<rparr>"]
  by (simp_all add: draw_base_route_closed Let_def del: not_None_eq split: option.splits gj_geometry.splits)

lemma wf_draw_features:
  assumes "wf_state s" "vectorSource s \<noteq> None" "rotatual s = None"
  shows "wf_state (draw_features fs view s)"
proof -
  define base where "base = (case filter is_route_feature fs of
      [] \<Rightarrow> (Returned, s) | mainRoute # _ \<Rightarrow> draw_base_route mainRoute view s)"
  obtain r s1 where b: "base = (r, s1)" by (cases base)
  have ok1: "wf_state s1 \<and> vectorSource s1 \<noteq> None"
  proof (cases "filter is_route_feature fs")
    case Nil
    with b assms show ?thesis by (simp add: base_def)
  next
    case (Cons m ms)
    with b have "s1 = snd (draw_base_route m view s)" by (simp add: base_def)
    then show ?thesis using wf_draw_base_route [OF assms] by simp
  qed
  define s2 where "s2 = (if filter is_traffic_segment fs \<noteq> []
      then drawTrafficSegments (filter is_traffic_segment fs) s1 else s1)"
  have ok2: "wf_state s2 \<and> vectorSource s2 \<noteq> None"
    using ok1 wf_drawTrafficSegments [of s1] by (simp add: s2_def del: not_None_eq)
  define s3 where "s3 = (if filter is_traffic_incident fs \<noteq> []
      then drawTrafficIncidents (filter is_traffic_incident fs) s2 else s2)"
  have ok3: "wf_state s3"
    using ok2 wf_drawTrafficIncidents [of s2] by (simp add: s3_def del: not_None_eq)
  have "draw_features fs view s = (if fs = [] then s else if r = Thrown then s1 else s3)"
    using b by (simp add: draw_features_def Let_def base_def [symmetric] s2_def s3_def)
  then show ?thesis
    using assms(1) ok1 ok3 by simp
qed

lemma wf_drawRouteOnMap: "wf_state s \<Longrightarrow> wf_state (snd (drawRouteOnMap r s))"
proof (cases "mapInstance s = None \<or> vectorSource s = None \<or> r = None")
  case True
  assume "wf_state s"
  with True show ?thesis by (auto simp: drawRouteOnMap_def split: option.splits)
next
  case False
  assume w: "wf_state s"
  from False obtain view src res where v: "mapInstance s = Some view" "vectorSource s = Some src" "r = Some res"
    by auto
  have rm: "remove_previous_overlay s = (Returned, overlay_removed s)"
    using w v by (intro remove_previous_overlay_closed wf_removable) simp_all
  have "wf_state (draw_features fs view (overlay_removed s))" for fs
    using wf_overlay_removed [OF w] v
    by (intro wf_draw_features) (simp_all add: overlay_removed_def)
  then show ?thesis
    using v rm by (simp add: drawRouteOnMap_def)
qed

lemma wf_step: "wf_state s \<Longrightarrow> wf_state (step e s)"
proof (cases e)
  case (MapReadyEv url)
  assume w: "wf_state s"
  show ?thesis
  proof (cases "mapInstance s")
    case None
    with w have "tracked s = []"
      by (auto simp: wf_state_def source_list_def)
    then have "tracked (initializeMap_rendercomplete url s) = []"
      by (simp add: tracked_def route_refs_def marker_refs_def initializeMap_rendercomplete_def)
    then show ?thesis
      using MapReadyEv None w
      by (simp add: wf_state_def source_list_def kinds_ok_def)
         (simp add: initializeMap_rendercomplete_def)
  next
    case (Some v)
    with MapReadyEv w show ?thesis by simp
  qed
next
  case (StartWatchingEv force h)
  assume "wf_state s"
  then show ?thesis using StartWatchingEv
    by (simp add: getCurrentOnceAndStartWatch_def startWatching_def toggleFollowingState_def)
next
  case (PositionEv h pos)
  assume "wf_state s"
  then show ?thesis using PositionEv
    by (simp add: wf_handlePosition split: option.splits)
next
  case (SensorErrorEv h code)
  assume "wf_state s"
  then show ?thesis using SensorErrorEv by (simp add: handleError_def)
next
  case StopWatchingEv
  assume "wf_state s"
  then show ?thesis using StopWatchingEv
    by (simp add: stopWatching_def toggleFollowingState_def split: option.splits)
next
  case ToggleFollowEv
  assume "wf_state s"
  then show ?thesis using ToggleFollowEv
    by (simp add: toggleFollow_def toggleFollowingState_def Let_def)
next
  case (MapDragEv c)
  assume "wf_state s"
  then show ?thesis using MapDragEv
    by (simp add: disableFollowOnMapDrag_def toggleFollowingState_def split: option.splits)
next
  case CenterEv
  assume "wf_state s"
  then show ?thesis using CenterEv
    by (simp add: centerMapOnCurrentPos_def recentre_def split: option.splits)
next
  case ClearRouteEv
  assume "wf_state s"
  then show ?thesis using ClearRouteEv by (simp add: wf_clearRoute)
next
  case DrawRouteMarkersEv
  assume "wf_state s"
  then show ?thesis using DrawRouteMarkersEv by (simp add: wf_drawRouteMarkers)
next
  case (DrawRouteEv r)
  assume "wf_state s"
  then show ?thesis using DrawRouteEv by (simp add: wf_drawRouteOnMap)
next
  case (SetOriginCoordsEv c)
  assume "wf_state s"
  then show ?thesis using SetOriginCoordsEv by simp
next
  case (SetDestinationCoordsEv c)
  assume "wf_state s"
  then show ?thesis using SetDestinationCoordsEv by simp
qed

lemma wf_run: "wf_state s \<Longrightarrow> wf_state (run es s)"
  unfolding run_def by (induction es arbitrary: s) (simp_all add: wf_step)

lemma reachable_wf: "reachable s \<Longrightarrow> wf_state s"
  by (auto simp: reachable_def intro: wf_run wf_initial)

lemma located_store:
  "currentPos (located pos s) = Some (longitude pos, latitude pos)"
  "currentAccuracy (located pos s) = Some (accuracy pos)"
  by (simp_all add: located_def place_circle_def place_marker_def add_new_def new_feature_def
        addFeature_def setGeometry_def split: option.splits)

lemma located_circle:
  "\<exists>a. accuracyFeature (located pos s) = Some a
     \<and> geom (heap (located pos s) a) = CircleGeom (fromLonLat (longitude pos, latitude pos)) (accuracy pos)"
  by (simp add: located_def place_circle_def add_new_def new_feature_def addFeature_def
        setGeometry_def split: option.splits)

lemma mapInstance_located [simp]: "mapInstance (located pos s) = mapInstance s"
  by (simp add: located_def place_circle_def place_marker_def add_new_def new_feature_def
        addFeature_def setGeometry_def split: option.splits)

lemma wf_tracked_in_source:
  "wf_state s \<Longrightarrow> accuracyFeature s = Some a \<Longrightarrow> a \<in> set (source_list s)"
  by (simp add: wf_state_def tracked_def)

section \<open>The recentring policy\<close>

text \<open>
  C1. After the first fix of a tracking session, a location callback recentres the map
  on the reported position if and only if the marker feature was just created, or the
  caller forced initial centring, or follow-mode is active, and the reported accuracy is
  at most 150 m. A callback with accuracy above 150 m stores the position and the
  accuracy, gives the accuracy circle in the vector source the new geometry, and makes no
  call on the view and leaves it as it was.
\<close>

theorem steady_state_recentring:
  assumes "reachable s" and "hasInitialFix s" and "handlePosition pos force s = (out, s')"
  shows "(SetCenter (fromLonLat (longitude pos, latitude pos)) \<in> set out
            \<longleftrightarrow> (markerFeature s = None \<or> force \<or> isFollowing s) \<and> accuracy pos \<le> 150)
       \<and> (SetCenter (fromLonLat (longitude pos, latitude pos)) \<in> set out
            \<longrightarrow> map_option center (mapInstance s') = Some (fromLonLat (longitude pos, latitude pos)))
       \<and> (150 < accuracy pos \<longrightarrow>
            currentPos s' = Some (longitude pos, latitude pos)
            \<and> currentAccuracy s' = Some (accuracy pos)
            \<and> (\<exists>a. accuracyFeature s' = Some a \<and> a \<in> set (source_list s')
                  \<and> geom (heap s' a) = CircleGeom (fromLonLat (longitude pos, latitude pos)) (accuracy pos))
            \<and> mapInstance s' = mapInstance s
            \<and> \<not> list_ex view_call out)"
proof -
  have inv: "tracking_inv s" and wf: "wf_state s"
    using assms(1) by (simp_all add: reachable_tracking_inv reachable_wf)
  from inv assms(2) obtain view src where v: "mapInstance s = Some view" "vectorSource s = Some src"
    by (auto simp: tracking_inv_def)
  have wl: "wf_state (located pos s)"
    using wf v by (intro wf_located) simp_all
  obtain a where a: "accuracyFeature (located pos s) = Some a"
    "geom (heap (located pos s) a) = CircleGeom (fromLonLat (longitude pos, latitude pos)) (accuracy pos)"
    using located_circle [of pos s] by blast
  have src: "a \<in> set (source_list (located pos s))"
    using wl a(1) by (rule wf_tracked_in_source)
  show ?thesis
  proof (cases "(markerFeature s = None \<or> force \<or> isFollowing s) \<and> accuracy pos \<le> 150")
    case True
    then have "out = [SetCenter (fromLonLat (longitude pos, latitude pos)), SetZoom (max 16 (zoom view)),
        UpdateStatus (GpsActive (accuracy pos) (isFollowing s))]"
      and "s' = set_view \<lparr>center = fromLonLat (longitude pos, latitude pos), zoom = max 16 (zoom view)\<rparr> (located pos s)"
      using assms(2,3) by (simp_all add: handlePosition_accepted [OF v] Let_def)
    with True v show ?thesis by (simp add: set_view_def)
  next
    case False
    then have "out = [UpdateStatus (if 150 < accuracy pos then LowPrecision (accuracy pos)
        else GpsActive (accuracy pos) (isFollowing s))]"
      and "s' = located pos s"
      using assms(2,3) by (auto simp: handlePosition_accepted [OF v] Let_def split: if_splits)
    with False a src show ?thesis by (simp add: located_store)
  qed
qed

lemma reachable_initial: "reachable (initial_state geo strict fit)"
proof -
  have "initial_state geo strict fit = run [] (initial_state geo strict fit)"
    by (simp add: run_def)
  then show ?thesis unfolding reachable_def by blast
qed

lemma example_ready_facts:
  "reachable example_ready"
  "mapInstance example_ready = Some \<lparr>center = fromLonLat (- 46.633309, - 23.55052), zoom = 10\<rparr>"
  "vectorSource example_ready = Some []"
  "watchId example_ready = None" "watches example_ready = []"
  "env_geolocation example_ready"
  "\<not> hasInitialFix example_ready" "\<not> isFollowing example_ready"
  "markerFeature example_ready = None"
  unfolding example_ready_def
  by (simp_all add: reachable_run reachable_initial)
     (simp_all add: run_def initial_state_def initializeMap_rendercomplete_def isFollowing_def)

lemma example_watching_facts:
  "reachable example_watching"
  "mapInstance example_watching = Some \<lparr>center = fromLonLat (- 46.633309, - 23.55052), zoom = 10\<rparr>"
  "vectorSource example_watching = Some []"
  "watchId example_watching = Some example_handle"
  "watches example_watching = [(example_handle, False)]"
  "\<not> hasInitialFix example_watching" "isFollowing example_watching"
  "markerFeature example_watching = None"
  unfolding example_watching_def
  by (simp_all add: reachable_run example_ready_facts)
     (simp_all add: run_def getCurrentOnceAndStartWatch_def startWatching_def
        toggleFollowingState_def isFollowing_def FontFaceSetLoadEvent_def example_ready_facts
        example_ready_facts [unfolded isFollowing_def])

lemma located_marker: "\<exists>m. markerFeature (located pos s) = Some m"
  by (simp add: located_def place_marker_def split: option.splits)

lemma example_tracking_facts:
  "reachable example_tracking"
  "hasInitialFix example_tracking" "isFollowing example_tracking"
  "mapInstance example_tracking = Some \<lparr>center = fromLonLat (- 46.6, - 23.5), zoom = 16\<rparr>"
  "markerFeature example_tracking \<noteq> None"
  unfolding example_tracking_def
  by (simp_all add: reachable_run example_watching_facts)
     (simp_all add: run_def example_watching_facts handlePosition_accepted [OF example_watching_facts(2,3)]
        Let_def first_fix_def set_view_def isFollowing_def located_marker
        example_watching_facts [unfolded isFollowing_def])

text \<open>
  The steady-state rule at a tracked state with follow-mode on: a fix of 200 m leaves the
  viewport alone and is stored, a fix of 50 m recentres.
\<close>

theorem steady_state_recentring_witness:
  "SetCenter (fromLonLat (longitude poor_fix, latitude poor_fix))
     \<notin> set (fst (handlePosition poor_fix False example_tracking))
   \<and> currentAccuracy (snd (handlePosition poor_fix False example_tracking)) = Some 200
   \<and> mapInstance (snd (handlePosition poor_fix False example_tracking)) = mapInstance example_tracking
   \<and> SetCenter (fromLonLat (longitude good_fix, latitude good_fix))
     \<in> set (fst (handlePosition good_fix False example_tracking))"
  using steady_state_recentring [OF example_tracking_facts(1,2), of poor_fix False
      "fst (handlePosition poor_fix False example_tracking)"
      "snd (handlePosition poor_fix False example_tracking)"]
    steady_state_recentring [OF example_tracking_facts(1,2), of good_fix False
      "fst (handlePosition good_fix False example_tracking)"
      "snd (handlePosition good_fix False example_tracking)"]
  by (simp add: example_tracking_facts poor_fix_def good_fix_def)

lemma step_keeps_no_fix:
  assumes "\<not> hasInitialFix s" "\<not> fix_accepted e s"
  shows "\<not> hasInitialFix (step e s)"
proof (cases e)
  case (PositionEv h pos)
  show ?thesis
  proof (cases "map_of (watches s) h")
    case None
    with PositionEv assms show ?thesis by simp
  next
    case (Some force)
    with PositionEv assms(2) have "mapInstance s = None \<or> vectorSource s = None"
      by auto
    then show ?thesis
      using PositionEv Some assms(1) by (simp add: handlePosition_rejected)
  qed
next
  case ClearRouteEv
  then show ?thesis using assms(1) clearRoute_frame [of s] by (simp add: gps_frame_def)
next
  case DrawRouteMarkersEv
  then show ?thesis using assms(1) drawRouteMarkers_frame [of s] by (simp add: gps_frame_def)
next
  case (DrawRouteEv r)
  then show ?thesis using assms(1) drawRouteOnMap_frame [of s r] by (simp add: gps_frame_def)
qed (use assms(1) in \<open>simp_all add: initializeMap_rendercomplete_def getCurrentOnceAndStartWatch_def
      startWatching_def toggleFollowingState_def handleError_def stopWatching_def toggleFollow_def
      Let_def disableFollowOnMapDrag_def set_view_def centerMapOnCurrentPos_def recentre_def
      split: option.splits\<close>)

lemma run_keeps_no_fix:
  "\<not> hasInitialFix s \<Longrightarrow> no_fix_accepted es s \<Longrightarrow> \<not> hasInitialFix (run es s)"
  unfolding run_def by (induction es arbitrary: s) (simp_all add: step_keeps_no_fix)

lemma idle_has_no_fix: "reachable s \<Longrightarrow> watchId s = None \<Longrightarrow> \<not> hasInitialFix s"
  using reachable_tracking_inv [of s] by (auto simp: tracking_inv_def)

text \<open>
  C2. From any reachable state without a watch handle, after a start-tracking request and
  any events among which no position callback is accepted, an accepted callback sets the
  centre of the view to the reported position and its zoom to the larger of 16 and the
  zoom it had, whatever the reported accuracy, and reports the initial fix: these three
  calls are all it makes, so the steady-state policy is not run.
\<close>

theorem first_fix_recentres:
  assumes "reachable s0" and "watchId s0 = None"
    and "no_fix_accepted es (step (StartWatchingEv force h) s0)"
    and "s = run es (step (StartWatchingEv force h) s0)"
    and "mapInstance s = Some view" and "vectorSource s = Some src"
  shows "\<exists>s'. handlePosition pos force' s =
           ([SetCenter (fromLonLat (longitude pos, latitude pos)),
             SetZoom (max 16 (zoom view)),
             UpdateStatus (InitialFix (accuracy pos))], s')
         \<and> mapInstance s' = Some \<lparr>center = fromLonLat (longitude pos, latitude pos), zoom = max 16 (zoom view)\<rparr>
         \<and> 16 \<le> max 16 (zoom view)
         \<and> hasInitialFix s'"
proof -
  have "\<not> hasInitialFix s0"
    using assms(1,2) by (rule idle_has_no_fix)
  then have "\<not> hasInitialFix (step (StartWatchingEv force h) s0)"
    by (rule step_keeps_no_fix) simp
  then have "\<not> hasInitialFix s"
    unfolding assms(4) using assms(3) by (rule run_keeps_no_fix)
  then show ?thesis
    using assms(5) by (simp add: handlePosition_accepted [OF assms(5,6)] Let_def set_view_def)
qed

lemma example_tracking_store:
  "watchId example_tracking = Some example_handle"
  "watches example_tracking = [(example_handle, False)]"
  "vectorSource example_tracking = Some [0, 1]"
  "env_geolocation example_tracking"
proof -
  have w: "watchId example_watching = Some example_handle"
    "watches example_watching = [(example_handle, False)]"
    "mapInstance example_watching = Some \<lparr>center = fromLonLat (- 46.633309, - 23.55052), zoom = 10\<rparr>"
    "vectorSource example_watching = Some []"
    by (simp_all add: example_watching_facts)
  have n: "next_uid example_watching = 0" "markerFeature example_watching = None"
    "accuracyFeature example_watching = None" "env_geolocation example_watching"
    by (simp_all add: example_watching_def example_ready_def run_def initial_state_def
          initializeMap_rendercomplete_def getCurrentOnceAndStartWatch_def startWatching_def
          toggleFollowingState_def)
  have e: "example_tracking = snd (handlePosition first_fix False example_watching)"
    by (simp add: example_tracking_def run_def w)
  show "watchId example_tracking = Some example_handle"
    "watches example_tracking = [(example_handle, False)]"
    "vectorSource example_tracking = Some [0, 1]"
    "env_geolocation example_tracking"
    unfolding e
    by (simp_all add: handlePosition_accepted [OF w(3,4)] Let_def set_view_def located_def
          place_marker_def place_circle_def add_new_def new_feature_def addFeature_def w n)
qed

lemma example_stopped_facts:
  "reachable example_stopped"
  "watchId example_stopped = None"
  "mapInstance example_stopped = Some \<lparr>center = fromLonLat (- 46.6, - 23.5), zoom = 16\<rparr>"
  "vectorSource example_stopped = Some [0, 1]"
  "env_geolocation example_stopped"
  unfolding example_stopped_def
  by (simp_all add: reachable_run example_tracking_facts)
     (simp_all add: run_def stopWatching_def toggleFollowingState_def example_tracking_store
        example_tracking_facts)

text \<open>
  A restart: tracking is stopped and started again at the tracked example state, and the
  next callback, of 200 m accuracy, recentres.
\<close>

theorem first_fix_recentres_witness:
  "fst (handlePosition poor_fix False
          (run [] (step (StartWatchingEv False (WatchHandle 2)) example_stopped)))
     = [SetCenter (fromLonLat (- 46.7, - 23.6)), SetZoom 16, UpdateStatus (InitialFix 200)]"
proof -
  let ?s = "run [] (step (StartWatchingEv False (WatchHandle 2)) example_stopped)"
  have n: "no_fix_accepted [] (step (StartWatchingEv False (WatchHandle 2)) example_stopped)"
    by simp
  have m: "mapInstance ?s = Some \<lparr>center = fromLonLat (- 46.6, - 23.5), zoom = 16\<rparr>"
    and v: "vectorSource ?s = Some [0, 1]"
    by (simp_all add: run_def getCurrentOnceAndStartWatch_def startWatching_def
          toggleFollowingState_def example_stopped_facts)
  show ?thesis
    using first_fix_recentres [OF example_stopped_facts(1,2) n refl m v, of poor_fix False]
    by (auto simp: poor_fix_def)
qed

text \<open>
  C3. In every reachable state the browser holds at most one position subscription, and
  where a watch handle is set a start-tracking request reports that tracking is already
  active and changes nothing: the handle, the list of subscriptions and every other part
  of the state stay as they were, and no subscription is requested.
\<close>

theorem single_subscription:
  assumes "reachable s"
  shows "length (watches s) \<le> 1
       \<and> (\<forall>h. watchId s = Some h \<longrightarrow>
             startWatching force h' s = ([UpdateStatus AlreadyActive], s))"
  using reachable_tracking_inv [OF assms]
  by (auto simp: tracking_inv_def startWatching_def)

text \<open>At the tracked example state a second request, for which the browser would return handle 2.\<close>

theorem single_subscription_witness:
  "watchId example_tracking = Some example_handle
   \<and> startWatching True (WatchHandle 2) example_tracking = ([UpdateStatus AlreadyActive], example_tracking)
   \<and> length (watches example_tracking) \<le> 1"
  using single_subscription [OF example_tracking_facts(1), of True "WatchHandle 2"]
  by (simp add: example_tracking_store)

section \<open>Follow-mode\<close>

text \<open>
  C7, as amended. While follow-mode is on, an accepted position update, that is, a
  callback handled while the map and its vector source exist, stores the reported
  position and accuracy. It recentres the map on the reported position exactly when it is
  the first fix of the tracking session or its reported accuracy is at most 150 m. A
  later update with an accuracy above 150 m makes no call on the view and leaves it as
  it was.
\<close>

theorem follow_mode_recentres:
  assumes "isFollowing s" and "mapInstance s = Some view" and "vectorSource s = Some src"
    and "handlePosition pos force s = (out, s')"
  shows "currentPos s' = Some (longitude pos, latitude pos)
       \<and> currentAccuracy s' = Some (accuracy pos)
       \<and> (SetCenter (fromLonLat (longitude pos, latitude pos)) \<in> set out
            \<longleftrightarrow> \<not> hasInitialFix s \<or> accuracy pos \<le> 150)
       \<and> (\<not> hasInitialFix s \<or> accuracy pos \<le> 150 \<longrightarrow>
            map_option center (mapInstance s') = Some (fromLonLat (longitude pos, latitude pos)))
       \<and> (hasInitialFix s \<and> 150 < accuracy pos \<longrightarrow>
            mapInstance s' = mapInstance s \<and> \<not> list_ex view_call out)"
proof -
  let ?c = "fromLonLat (longitude pos, latitude pos)"
  let ?moved = "set_view \<lparr>center = ?c, zoom = max 16 (zoom view)\<rparr> (located pos s)"
  consider (first) "\<not> hasInitialFix s"
    | (good) "hasInitialFix s" "accuracy pos \<le> 150"
    | (poor) "hasInitialFix s" "150 < accuracy pos"
    by fastforce
  then show ?thesis
  proof cases
    case first
    then have "out = [SetCenter ?c, SetZoom (max 16 (zoom view)), UpdateStatus (InitialFix (accuracy pos))]"
      and "s' = ?moved\<lparr>hasInitialFix := True\<rparr>"
      using assms(4) by (simp_all add: handlePosition_accepted [OF assms(2,3)] Let_def)
    with first assms(2) show ?thesis by (simp add: set_view_def located_store)
  next
    case good
    then have "out = [SetCenter ?c, SetZoom (max 16 (zoom view)),
        UpdateStatus (GpsActive (accuracy pos) True)]"
      and "s' = ?moved"
      using assms(1,4) by (simp_all add: handlePosition_accepted [OF assms(2,3)] Let_def)
    with good assms(2) show ?thesis by (simp add: set_view_def located_store)
  next
    case poor
    then have "out = [UpdateStatus (LowPrecision (accuracy pos))]" and "s' = located pos s"
      using assms(4) by (simp_all add: handlePosition_accepted [OF assms(2,3)] Let_def)
    with poor show ?thesis by (simp add: located_store)
  qed
qed

text \<open>
  At the tracked example state a fix of 50 m recentres and a fix of 200 m is stored and
  leaves the view alone; as the first fix of the session the fix of 200 m recentres.
\<close>

theorem follow_mode_recentres_witness:
  "SetCenter (fromLonLat (- 46.7, - 23.6)) \<in> set (fst (handlePosition good_fix False example_tracking))
   \<and> map_option center (mapInstance (snd (handlePosition good_fix False example_tracking)))
       = Some (fromLonLat (- 46.7, - 23.6))
   \<and> currentPos (snd (handlePosition poor_fix False example_tracking)) = Some (- 46.7, - 23.6)
   \<and> currentAccuracy (snd (handlePosition poor_fix False example_tracking)) = Some 200
   \<and> mapInstance (snd (handlePosition poor_fix False example_tracking)) = mapInstance example_tracking
   \<and> \<not> list_ex view_call (fst (handlePosition poor_fix False example_tracking))
   \<and> SetCenter (fromLonLat (- 46.7, - 23.6)) \<in> set (fst (handlePosition poor_fix False example_watching))"
  using follow_mode_recentres [OF example_tracking_facts(3,4) example_tracking_store(3),
      of good_fix False "fst (handlePosition good_fix False example_tracking)"
      "snd (handlePosition good_fix False example_tracking)"]
    follow_mode_recentres [OF example_tracking_facts(3,4) example_tracking_store(3),
      of poor_fix False "fst (handlePosition poor_fix False example_tracking)"
      "snd (handlePosition poor_fix False example_tracking)"]
    follow_mode_recentres [OF example_watching_facts(7,2,3),
      of poor_fix False "fst (handlePosition poor_fix False example_watching)"
      "snd (handlePosition poor_fix False example_watching)"]
  by (simp add: good_fix_def poor_fix_def example_tracking_facts example_watching_facts)

text \<open>
  C7 as stated fails: at the tracked example state follow-mode is on and the map is
  initialised, and a callback of 200 m accuracy is accepted (its position is stored) but
  makes no call on the view, which stays centred on the earlier fix.
\<close>

theorem follow_mode_counterexample:
  "isFollowing example_tracking
   \<and> mapInstance example_tracking \<noteq> None \<and> vectorSource example_tracking \<noteq> None
   \<and> currentPos (snd (handlePosition poor_fix False example_tracking)) = Some (- 46.7, - 23.6)
   \<and> SetCenter (fromLonLat (- 46.7, - 23.6)) \<notin> set (fst (handlePosition poor_fix False example_tracking))
   \<and> map_option center (mapInstance (snd (handlePosition poor_fix False example_tracking)))
       = Some (fromLonLat (- 46.6, - 23.5))"
  by (simp add: handlePosition_accepted [OF example_tracking_facts(4) example_tracking_store(3)]
        Let_def example_tracking_facts example_tracking_store poor_fix_def located_store fromLonLat_def)

text \<open>
  C8. The claim fails on the code: \<^verbatim>\<open>startWatching\<close> ends with
  \<^verbatim>\<open>toggleFollowingState(FontFaceSetLoadEvent)\<close>, which stores a function, a truthy
  value. At the ready example state follow-mode is off, and after the start request of the
  locate button it is on, without any use of the follow toggle.
\<close>

theorem start_watching_turns_follow_on:
  "\<not> isFollowing example_ready
   \<and> isFollowing (snd (getCurrentOnceAndStartWatch True example_handle example_ready))
   \<and> fst (getCurrentOnceAndStartWatch True example_handle example_ready) = [WatchPosition example_handle True]"
  by (simp add: getCurrentOnceAndStartWatch_def startWatching_def toggleFollowingState_def
        isFollowing_def FontFaceSetLoadEvent_def example_ready_facts
        example_ready_facts [unfolded isFollowing_def])

text \<open>The other half of C8 holds: a drag never leaves follow-mode on.\<close>

lemma drag_clears_follow: "\<not> isFollowing (snd (disableFollowOnMapDrag s))"
  by (simp add: disableFollowOnMapDrag_def toggleFollowingState_def isFollowing_def)

lemma drag_event_clears_follow: "\<not> isFollowing s \<Longrightarrow> \<not> isFollowing (step (MapDragEv c) s)"
  by (simp add: disableFollowOnMapDrag_def set_view_def isFollowing_def split: option.splits)

lemma cleared_fields [simp]:
  "currentPos (cleared s) = currentPos s"
  "currentAccuracy (cleared s) = currentAccuracy s"
  "apiBaseUrl (cleared s) = apiBaseUrl s"
  "rotatual (cleared s) = None"
  "originMarker (cleared s) = None"
  "destinationMarker (cleared s) = None"
  "trafficFeatures (cleared s) = []"
  "incidentFeatures (cleared s) = []"
  "originCoords (cleared s) = None"
  "destinationCoords (cleared s) = None"
  "(vectorSource (cleared s) = None) = (vectorSource s = None)"
  "mapInstance (cleared s) = mapInstance s"
  "env_strict_remove (cleared s) = env_strict_remove s"
  "source_list (cleared s) = filter (\<lambda>u. u \<notin> set (route_refs s)) (source_list s)"
  by (simp_all add: cleared_def drop_refs_def source_list_def split: option.splits)

lemma clearRoute_reachable:
  assumes "reachable s"
  shows "clearRoute s = (Returned, if vectorSource s = None then s else cleared s)"
proof (cases "vectorSource s")
  case None
  then show ?thesis by (simp add: clearRoute_def)
next
  case (Some src)
  then have "removable (marker_refs s) s"
    using reachable_wf [OF assms] by (intro wf_removable) simp_all
  then show ?thesis using Some by (simp add: clearRoute_closed)
qed

lemma clearRoute_store:
  "currentPos (snd (clearRoute s)) = currentPos s"
  "currentAccuracy (snd (clearRoute s)) = currentAccuracy s"
  using clearRoute_frame [of s] by (simp_all add: gps_frame_def)

lemma clearRoute_url: "url_defined (snd (clearRoute s)) = url_defined s"
proof -
  have a: "\<And>u t. removeFeature u s = Some t \<Longrightarrow> apiBaseUrl t = apiBaseUrl s" for s
    by (auto simp: removeFeature_def split: option.splits)
  have b: "\<And>r t. remove_if_set r s = Some t \<Longrightarrow> apiBaseUrl t = apiBaseUrl s" for s
    using a by (auto simp: remove_if_set_def split: option.splits)
  have c: "apiBaseUrl (fold remove_quietly us s) = apiBaseUrl s" for us s
    by (simp add: fold_remove_quietly_drop drop_refs_def)
  have "apiBaseUrl (snd (clearRoute s)) = apiBaseUrl s"
    by (auto simp: clearRoute_def Let_def c split: option.splits dest!: b)
  then show ?thesis by (simp add: url_defined_def)
qed

section \<open>The GPS origin\<close>

text \<open>
  C9. In a reachable state with a stored accuracy, a route request whose origin reads GPS
  in any letter case is rejected when the accuracy is above 150 m: it shows the message
  that the position is imprecise as an error and returns, with no request to the network.
  When the accuracy is at most 150 m there is a stored position and the request goes on
  to the destination with that position as its origin: with a server address it either
  sends the geocoding request for the destination and waits for it with this origin, or,
  for a destination given as coordinates, stores this origin and waits for the map.
\<close>

theorem gps_origin_accuracy_gate:
  assumes "reachable s" and "toUpperCase originInput = ''GPS''" and "currentAccuracy s = Some a"
  shows "(150 < a \<longrightarrow>
            calculateRouteFromAddresses parse originInput destinationInput s =
              ([ShowMessage CalculatingRoute Info, ShowMessage (GpsImprecise a) Error],
               snd (clearRoute s), Finished))
       \<and> (a \<le> 150 \<longrightarrow>
            (\<exists>p out r. currentPos s = Some p
               \<and> process_destination parse p destinationInput (snd (clearRoute s)) = (out, r)
               \<and> calculateRouteFromAddresses parse originInput destinationInput s =
                    ([ShowMessage CalculatingRoute Info, ShowMessage OriginFromGps Info] @ out, r)
               \<and> (url_defined s \<longrightarrow>
                    (case parse destinationInput of
                       None \<Rightarrow> out = [FetchGeocode destinationInput] \<and> snd r = AwaitGeocodeDestination p
                     | Some d \<Rightarrow> out = [] \<and> snd r = AwaitMapReady p d \<and> originCoords (fst r) = Some p))))"
proof -
  obtain s1 where c: "clearRoute s = (Returned, s1)"
    using clearRoute_reachable [OF assms(1)] by simp
  have acc: "currentAccuracy s1 = Some a" and pos: "currentPos s1 = currentPos s"
    and url: "url_defined s1 = url_defined s"
    using clearRoute_store [of s] clearRoute_url [of s] c assms(3) by simp_all
  from reachable_tracking_inv [OF assms(1)] assms(3) obtain p where p: "currentPos s = Some p"
    by (auto simp: tracking_inv_def)
  show ?thesis
  proof (intro conjI impI)
    assume "150 < a"
    then show "calculateRouteFromAddresses parse originInput destinationInput s =
        ([ShowMessage CalculatingRoute Info, ShowMessage (GpsImprecise a) Error], snd (clearRoute s), Finished)"
      using c acc pos p assms(2)
      by (simp add: calculateRouteFromAddresses_def Let_def gps_unreliable_def GPS_RELIABLE_THRESHOLD_def)
  next
    assume le: "a \<le> 150"
    obtain out r where d: "process_destination parse p destinationInput s1 = (out, r)"
      by (cases "process_destination parse p destinationInput s1")
    have "calculateRouteFromAddresses parse originInput destinationInput s =
        ([ShowMessage CalculatingRoute Info, ShowMessage OriginFromGps Info] @ out, r)"
      using c acc pos p assms(2) le d
      by (simp add: calculateRouteFromAddresses_def Let_def gps_unreliable_def GPS_RELIABLE_THRESHOLD_def)
    moreover have "url_defined s \<longrightarrow>
        (case parse destinationInput of
           None \<Rightarrow> out = [FetchGeocode destinationInput] \<and> snd r = AwaitGeocodeDestination p
         | Some d \<Rightarrow> out = [] \<and> snd r = AwaitMapReady p d \<and> originCoords (fst r) = Some p)"
      using d url by (auto simp: process_destination_def geocodeAddress_def split: option.splits)
    ultimately show "\<exists>p out r. currentPos s = Some p
        \<and> process_destination parse p destinationInput (snd (clearRoute s)) = (out, r)
        \<and> calculateRouteFromAddresses parse originInput destinationInput s =
             ([ShowMessage CalculatingRoute Info, ShowMessage OriginFromGps Info] @ out, r)
        \<and> (url_defined s \<longrightarrow>
             (case parse destinationInput of
                None \<Rightarrow> out = [FetchGeocode destinationInput] \<and> snd r = AwaitGeocodeDestination p
              | Some d \<Rightarrow> out = [] \<and> snd r = AwaitMapReady p d \<and> originCoords (fst r) = Some p))"
      using p d c by (intro exI [of _ p] exI [of _ out] exI [of _ r]) simp
  qed
qed

lemma upper_gps: "toUpperCase ''gps'' = ''GPS''" "toUpperCase ''GPS'' = ''GPS''"
  by (simp_all add: toUpperCase_def upper_char_def)

lemma handlePosition_store:
  assumes "mapInstance s = Some view" "vectorSource s = Some src"
  shows "currentPos (snd (handlePosition pos force s)) = Some (longitude pos, latitude pos)"
    and "currentAccuracy (snd (handlePosition pos force s)) = Some (accuracy pos)"
  by (simp_all add: handlePosition_accepted [OF assms] Let_def located_store set_view_def)

lemma example_tracking_position:
  "currentPos example_tracking = Some (- 46.6, - 23.5)"
  "currentAccuracy example_tracking = Some 20"
  "url_defined example_tracking"
proof -
  have e: "example_tracking = snd (handlePosition first_fix False example_watching)"
    by (simp add: example_tracking_def run_def example_watching_facts)
  have u: "apiBaseUrl example_watching = Some ''http://localhost:5000''"
    by (simp add: example_watching_def example_ready_def run_def initial_state_def
          initializeMap_rendercomplete_def getCurrentOnceAndStartWatch_def startWatching_def
          toggleFollowingState_def)
  show "currentPos example_tracking = Some (- 46.6, - 23.5)"
    "currentAccuracy example_tracking = Some 20"
    unfolding e by (simp_all add: handlePosition_store [OF example_watching_facts(2,3)] first_fix_def)
  show "url_defined example_tracking"
    unfolding e
    by (simp add: handlePosition_accepted [OF example_watching_facts(2,3)] Let_def set_view_def
          located_def place_marker_def place_circle_def add_new_def new_feature_def addFeature_def
          setGeometry_def url_defined_def u split: option.splits)
qed

lemma example_poor_facts:
  "reachable example_poor"
  "currentPos example_poor = Some (- 46.7, - 23.6)"
  "currentAccuracy example_poor = Some 200"
  unfolding example_poor_def
  by (simp_all add: reachable_run example_tracking_facts)
     (simp_all add: run_def example_tracking_store
        handlePosition_store [OF example_tracking_facts(4) example_tracking_store(3)] poor_fix_def)

text \<open>
  With 200 m stored the request typed as \<open>gps\<close> is rejected; with 20 m stored it sends
  the geocoding request for the destination and keeps the stored position as origin.
\<close>

theorem gps_origin_accuracy_gate_witness:
  "calculateRouteFromAddresses no_coordinates ''gps'' ''Rua Augusta, 100'' example_poor =
     ([ShowMessage CalculatingRoute Info, ShowMessage (GpsImprecise 200) Error],
      snd (clearRoute example_poor), Finished)
   \<and> fst (calculateRouteFromAddresses no_coordinates ''GPS'' ''Rua Augusta, 100'' example_tracking) =
       [ShowMessage CalculatingRoute Info, ShowMessage OriginFromGps Info, FetchGeocode ''Rua Augusta, 100'']
   \<and> snd (snd (calculateRouteFromAddresses no_coordinates ''GPS'' ''Rua Augusta, 100'' example_tracking)) =
       AwaitGeocodeDestination (- 46.6, - 23.5)"
  using gps_origin_accuracy_gate [OF example_poor_facts(1) upper_gps(1) example_poor_facts(3),
      of no_coordinates "''Rua Augusta, 100''"]
    gps_origin_accuracy_gate [OF example_tracking_facts(1) upper_gps(2) example_tracking_position(2),
      of no_coordinates "''Rua Augusta, 100''"]
  by (auto simp: example_tracking_position no_coordinates_def)

text \<open>
  C10. For a route request with origin GPS and a stored position, whose initial clearing
  returns, the request is rejected as imprecise exactly when the stored accuracy is a
  number other than 0 that is greater than 150. With no stored accuracy, with 0 and with
  any value up to 150 it goes on to the destination with the stored position as origin:
  without a server address it shows that and returns; for a destination given as an
  address it sends the geocoding request and waits for it with the stored position as
  origin; for a destination given as coordinates it stores the stored position as origin
  and waits for the map.
\<close>

theorem gps_origin_falsy_accuracy:
  assumes "fst (clearRoute s) = Returned" and "toUpperCase originInput = ''GPS''"
    and "currentPos s = Some p"
  shows "((\<exists>a. calculateRouteFromAddresses parse originInput destinationInput s =
              ([ShowMessage CalculatingRoute Info, ShowMessage (GpsImprecise a) Error],
               snd (clearRoute s), Finished))
            \<longleftrightarrow> (\<exists>a. currentAccuracy s = Some a \<and> a \<noteq> 0 \<and> 150 < a))
       \<and> (currentAccuracy s = None \<or> currentAccuracy s = Some 0
              \<or> (\<exists>a. currentAccuracy s = Some a \<and> a \<le> 150) \<longrightarrow>
            calculateRouteFromAddresses parse originInput destinationInput s =
              (if \<not> url_defined s then
                 ([ShowMessage CalculatingRoute Info, ShowMessage OriginFromGps Info,
                   ShowMessage ServerUrlUndefined Error],
                  snd (clearRoute s), Finished)
               else case parse destinationInput of
                      None \<Rightarrow>
                        ([ShowMessage CalculatingRoute Info, ShowMessage OriginFromGps Info,
                          FetchGeocode destinationInput],
                         snd (clearRoute s), AwaitGeocodeDestination p)
                    | Some d \<Rightarrow>
                        ([ShowMessage CalculatingRoute Info, ShowMessage OriginFromGps Info],
                         (snd (clearRoute s))\<lparr>originCoords := Some p, destinationCoords := Some d\<rparr>,
                         AwaitMapReady p d)))"
proof -
  obtain s1 where c: "clearRoute s = (Returned, s1)"
    using assms(1) by (cases "clearRoute s") simp
  have acc: "currentAccuracy s1 = currentAccuracy s" and pos: "currentPos s1 = Some p"
    and url: "url_defined s1 = url_defined s"
    using clearRoute_store [of s] clearRoute_url [of s] c assms(3) by simp_all
  obtain out r where d: "process_destination parse p destinationInput s1 = (out, r)"
    by (cases "process_destination parse p destinationInput s1")
  have e: "calculateRouteFromAddresses parse originInput destinationInput s =
      (if gps_unreliable (currentAccuracy s)
       then ([ShowMessage CalculatingRoute Info, ShowMessage (GpsImprecise (the (currentAccuracy s))) Error],
             s1, Finished)
       else ([ShowMessage CalculatingRoute Info, ShowMessage OriginFromGps Info] @ out, r))"
    using c acc pos assms(2) d by (simp add: calculateRouteFromAddresses_def Let_def)
  have g: "gps_unreliable (currentAccuracy s) = (\<exists>a. currentAccuracy s = Some a \<and> a \<noteq> 0 \<and> 150 < a)"
    by (simp add: gps_unreliable_def GPS_RELIABLE_THRESHOLD_def split: option.splits)
  have k: "(out, r) =
      (if \<not> url_defined s then ([ShowMessage ServerUrlUndefined Error], s1, Finished)
       else case parse destinationInput of
              None \<Rightarrow> ([FetchGeocode destinationInput], s1, AwaitGeocodeDestination p)
            | Some d \<Rightarrow> ([], s1\<lparr>originCoords := Some p, destinationCoords := Some d\<rparr>, AwaitMapReady p d))"
    using d url by (auto simp: process_destination_def geocodeAddress_def split: option.splits)
  show ?thesis
  proof (cases "gps_unreliable (currentAccuracy s)")
    case True
    with e g c show ?thesis by auto
  next
    case False
    have "calculateRouteFromAddresses parse originInput destinationInput s =
        ([ShowMessage CalculatingRoute Info, ShowMessage OriginFromGps Info] @ out, r)"
      using e False by simp
    moreover have "\<not> (\<exists>a. calculateRouteFromAddresses parse originInput destinationInput s =
        ([ShowMessage CalculatingRoute Info, ShowMessage (GpsImprecise a) Error], snd (clearRoute s), Finished))"
      using e False by simp
    moreover have "\<not> (\<exists>a. currentAccuracy s = Some a \<and> a \<noteq> 0 \<and> 150 < a)"
      using False g by simp
    ultimately show ?thesis
      using k c by (auto split: option.splits if_splits)
  qed
qed

lemma example_unrated_clear:
  "fst (clearRoute example_unrated) = Returned" "fst (clearRoute example_exact) = Returned"
proof -
  have "removable (marker_refs example_unrated) example_unrated"
    "removable (marker_refs example_exact) example_exact"
    by (simp_all add: removable_def marker_refs_def example_exact_def example_unrated_def
          example_ready_def run_def initial_state_def initializeMap_rendercomplete_def)
  then show "fst (clearRoute example_unrated) = Returned" "fst (clearRoute example_exact) = Returned"
    by (simp_all add: clearRoute_closed)
qed

text \<open>
  A stored position without accuracy, and the same with accuracy 0: neither is rejected,
  and both wait for the geocoded destination with the stored position as origin.
\<close>

theorem gps_origin_falsy_accuracy_witness:
  "currentAccuracy example_unrated = None
   \<and> calculateRouteFromAddresses no_coordinates ''GPS'' ''Rua Augusta, 100'' example_unrated =
       ([ShowMessage CalculatingRoute Info, ShowMessage OriginFromGps Info, FetchGeocode ''Rua Augusta, 100''],
        snd (clearRoute example_unrated), AwaitGeocodeDestination (- 46.6, - 23.5))
   \<and> currentAccuracy example_exact = Some 0
   \<and> calculateRouteFromAddresses no_coordinates ''GPS'' ''Rua Augusta, 100'' example_exact =
       ([ShowMessage CalculatingRoute Info, ShowMessage OriginFromGps Info, FetchGeocode ''Rua Augusta, 100''],
        snd (clearRoute example_exact), AwaitGeocodeDestination (- 46.6, - 23.5))"
proof -
  have p: "currentPos example_unrated = Some (- 46.6, - 23.5)"
    "currentPos example_exact = Some (- 46.6, - 23.5)"
    and a: "currentAccuracy example_unrated = None" "currentAccuracy example_exact = Some 0"
    and u: "url_defined example_unrated" "url_defined example_exact"
    by (simp_all add: example_exact_def example_unrated_def example_ready_def run_def initial_state_def
          initializeMap_rendercomplete_def url_defined_def)
  show ?thesis
    using gps_origin_falsy_accuracy [OF example_unrated_clear(1) upper_gps(2) p(1),
        of no_coordinates "''Rua Augusta, 100''"]
      gps_origin_falsy_accuracy [OF example_unrated_clear(2) upper_gps(2) p(2),
        of no_coordinates "''Rua Augusta, 100''"] a u
    by (simp add: no_coordinates_def)
qed


section \<open>Clearing the route\<close>





lemma wf_rendered_sets:
  assumes "wf_state s"
  shows "set (rendered RouteLine s) = set (refs (rotatual s))"
    and "set (rendered TrafficSegment s) = set (trafficFeatures s)"
    and "set (rendered Incident s) = set (incidentFeatures s)"
proof -
  have e: "set (source_list s) = set (tracked s)" and k: "kinds_ok s"
    using assms by (simp_all add: wf_state_def)
  have t: "set (tracked s) = set (refs (markerFeature s)) \<union> set (refs (accuracyFeature s))
      \<union> set (refs (rotatual s)) \<union> set (refs (originMarker s)) \<union> set (refs (destinationMarker s))
      \<union> set (trafficFeatures s) \<union> set (incidentFeatures s)"
    by (auto simp: tracked_def route_refs_def marker_refs_def)
  show "set (rendered RouteLine s) = set (refs (rotatual s))"
    using k unfolding rendered_def set_filter e t kinds_ok_def by auto
  show "set (rendered TrafficSegment s) = set (trafficFeatures s)"
    using k unfolding rendered_def set_filter e t kinds_ok_def by auto
  show "set (rendered Incident s) = set (incidentFeatures s)"
    using k unfolding rendered_def set_filter e t kinds_ok_def by auto
qed

lemma wf_rendered_lengths:
  assumes "wf_state s"
  shows "length (rendered TrafficSegment s) = length (trafficFeatures s)"
    and "length (rendered Incident s) = length (incidentFeatures s)"
proof -
  have d: "distinct (source_list s)" and dt: "distinct (tracked s)"
    using assms by (simp_all add: wf_state_def)
  have d1: "distinct (trafficFeatures s)" and d2: "distinct (incidentFeatures s)"
    using dt by (simp_all add: tracked_def route_refs_def)
  have r: "distinct (rendered k s)" for k
    using d by (simp add: rendered_def)
  show "length (rendered TrafficSegment s) = length (trafficFeatures s)"
    using wf_rendered_sets(2) [OF assms] distinct_card [OF r] distinct_card [OF d1] by metis
  show "length (rendered Incident s) = length (incidentFeatures s)"
    using wf_rendered_sets(3) [OF assms] distinct_card [OF r] distinct_card [OF d2] by metis
qed

lemma add_new_env [simp]: "env_fit (add_new f s) = env_fit s"
  by (simp add: add_new_def new_feature_def addFeature_def)

lemma drawn_from_refl: "drawn_from t t"
  by (simp add: drawn_from_def)

lemma drawn_from_trans: "drawn_from t u \<Longrightarrow> drawn_from u v \<Longrightarrow> drawn_from t v"
  unfolding drawn_from_def by (fastforce)

lemma drawn_from_draw_segment: "drawn_from t (draw_segment f t)"
  by (auto simp: drawn_from_def draw_segment_closed overlay_refs_def simp del: segment_drawable.simps)

lemma drawn_from_draw_incident: "drawn_from t (draw_incident f t)"
  by (auto simp: drawn_from_def draw_incident_closed overlay_refs_def simp del: incident_drawable.simps)

lemma drawn_from_fold_segment: "drawn_from t (fold draw_segment fs t)"
proof (induction fs arbitrary: t)
  case Nil
  show ?case by (simp add: drawn_from_refl)
next
  case (Cons f fs)
  show ?case using drawn_from_trans [OF drawn_from_draw_segment Cons.IH] by simp
qed

lemma drawn_from_fold_incident: "drawn_from t (fold draw_incident fs t)"
proof (induction fs arbitrary: t)
  case Nil
  show ?case by (simp add: drawn_from_refl)
next
  case (Cons f fs)
  show ?case using drawn_from_trans [OF drawn_from_draw_incident Cons.IH] by simp
qed

lemma drawn_from_base_route: "drawn_from t (snd (draw_base_route m view t))"
  by (auto simp: drawn_from_def draw_base_route_closed overlay_refs_def Let_def
        split: option.splits gj_geometry.splits)

lemma count_fold_segment:
  "length (trafficFeatures (fold draw_segment fs t)) = length (trafficFeatures t) + length (filter segment_drawable fs)"
  "incidentFeatures (fold draw_segment fs t) = incidentFeatures t"
  by (induction fs arbitrary: t) (simp_all add: draw_segment_closed del: segment_drawable.simps)

lemma count_fold_incident:
  "length (incidentFeatures (fold draw_incident fs t)) = length (incidentFeatures t) + length (filter incident_drawable fs)"
  "trafficFeatures (fold draw_incident fs t) = trafficFeatures t"
  by (induction fs arbitrary: t) (simp_all add: draw_incident_closed del: incident_drawable.simps)

lemma base_route_lists:
  "trafficFeatures (snd (draw_base_route m view t)) = trafficFeatures t"
  "incidentFeatures (snd (draw_base_route m view t)) = incidentFeatures t"
  by (simp_all add: draw_base_route_closed Let_def split: option.splits gj_geometry.splits)

lemma base_route_returns:
  "(fst (draw_base_route m view t) = Returned) =
     (geometry m \<noteq> None \<and> geometry m \<noteq> Some GUnreadable \<and> env_fit t (FromGeoJSON m) view \<noteq> None)"
  by (simp add: draw_base_route_closed Let_def split: option.splits gj_geometry.splits)

lemma draw_features_facts:
  assumes "trafficFeatures t = []" "incidentFeatures t = []" "vectorSource t \<noteq> None"
  shows "drawn_from t (draw_features fs view t)"
    and "length (trafficFeatures (draw_features fs view t)) \<le> length (filter is_traffic_segment fs)"
    and "length (incidentFeatures (draw_features fs view t)) \<le> length (filter is_traffic_incident fs)"
    and "base_route_ok fs view t \<Longrightarrow>
         length (trafficFeatures (draw_features fs view t))
           = length (filter segment_drawable (filter is_traffic_segment fs))
         \<and> length (incidentFeatures (draw_features fs view t))
           = length (filter incident_drawable (filter is_traffic_incident fs))"
proof -
  let ?segs = "filter is_traffic_segment fs" and ?incs = "filter is_traffic_incident fs"
  define base where "base = (case filter is_route_feature fs of
      [] \<Rightarrow> (Returned, t) | mainRoute # _ \<Rightarrow> draw_base_route mainRoute view t)"
  obtain r s1 where b: "base = (r, s1)" by (cases base)
  have b1: "drawn_from t s1 \<and> trafficFeatures s1 = [] \<and> incidentFeatures s1 = []
      \<and> (r = Returned) = base_route_ok fs view t"
  proof (cases "filter is_route_feature fs")
    case Nil
    with b assms show ?thesis
      by (simp add: base_def drawn_from_refl base_route_ok_def)
  next
    case (Cons m ms)
    with b have "r = fst (draw_base_route m view t)" "s1 = snd (draw_base_route m view t)"
      by (simp_all add: base_def)
    then show ?thesis
      using Cons assms drawn_from_base_route [of t m view]
      by (simp add: base_route_lists base_route_returns base_route_ok_def)
  qed
  then have v1: "vectorSource s1 \<noteq> None"
    using assms(3) by (simp add: drawn_from_def)
  define s2 where "s2 = fold draw_segment ?segs s1"
  have d2: "drawn_from s1 s2" and v2: "vectorSource s2 \<noteq> None"
    using drawn_from_fold_segment [of s1 ?segs] v1 by (auto simp: s2_def drawn_from_def)
  define s3 where "s3 = fold draw_incident ?incs s2"
  have d3: "drawn_from s2 s3"
    using drawn_from_fold_incident [of s2 ?incs] by (simp add: s3_def)
  have e2: "(if ?segs \<noteq> [] then drawTrafficSegments ?segs s1 else s1) = s2"
    using v1 by (auto simp: s2_def drawTrafficSegments_def)
  have e3: "(if ?incs \<noteq> [] then drawTrafficIncidents ?incs s2 else s2) = s3"
    using v2 by (auto simp: s3_def drawTrafficIncidents_def)
  have e: "draw_features fs view t = (if fs = [] then t else if r = Thrown then s1 else s3)"
    using b by (simp add: draw_features_def Let_def base_def [symmetric] e2 e3)
  have c2: "length (trafficFeatures s2) = length (filter segment_drawable ?segs)"
    "incidentFeatures s2 = []"
    using b1 by (simp_all add: s2_def count_fold_segment del: segment_drawable.simps)
  have c3: "length (incidentFeatures s3) = length (filter incident_drawable ?incs)"
    "length (trafficFeatures s3) = length (filter segment_drawable ?segs)"
    using c2 by (simp_all add: s3_def count_fold_incident del: incident_drawable.simps)
  show "drawn_from t (draw_features fs view t)"
    using b1 drawn_from_trans [OF drawn_from_trans [OF _ d2] d3, of t]
    by (simp add: e drawn_from_refl)
  have le2: "length (filter segment_drawable ?segs) \<le> length ?segs"
    and le3: "length (filter incident_drawable ?incs) \<le> length ?incs"
    by (rule length_filter_le)+
  show "length (trafficFeatures (draw_features fs view t)) \<le> length ?segs"
    using assms(1) b1 c3(2) le2 by (simp add: e del: segment_drawable.simps filter_filter)
  show "length (incidentFeatures (draw_features fs view t)) \<le> length ?incs"
    using assms(2) b1 c3(1) le3 by (simp add: e del: incident_drawable.simps filter_filter)
  show "length (trafficFeatures (draw_features fs view t))
           = length (filter segment_drawable (filter is_traffic_segment fs))
         \<and> length (incidentFeatures (draw_features fs view t))
           = length (filter incident_drawable (filter is_traffic_incident fs))"
    if "base_route_ok fs view t"
  proof (cases "fs = []")
    case True
    with e have "draw_features fs view t = t" by simp
    with assms True show ?thesis by simp
  next
    case False
    from that b1 have "r = Returned" by simp
    with False c3 show ?thesis by (simp add: e)
  qed
qed

lemma overlay_removed_facts:
  "trafficFeatures (overlay_removed s) = []" "incidentFeatures (overlay_removed s) = []"
  "rotatual (overlay_removed s) = None" "overlay_refs (overlay_removed s) = []"
  "(vectorSource (overlay_removed s) = None) = (vectorSource s = None)"
  "next_uid (overlay_removed s) = next_uid s" "env_fit (overlay_removed s) = env_fit s"
  "markerFeature (overlay_removed s) = markerFeature s"
  "accuracyFeature (overlay_removed s) = accuracyFeature s"
  "originMarker (overlay_removed s) = originMarker s"
  "destinationMarker (overlay_removed s) = destinationMarker s"
  by (simp_all add: overlay_removed_def overlay_refs_def drop_refs_def)

section \<open>Drawing a route\<close>

text \<open>
  C5, as amended. In every reachable state where the map is published,
  \<^verbatim>\<open>drawRouteOnMap\<close> with a response returns without an exception. It has removed
  the previous overlay before drawing: none of the features stored as route line, traffic
  segments or incidents is in the source afterwards, and every route line, traffic segment
  and incident the source then holds is new. The source holds at most as many traffic
  segments and incidents as the response has, and, when the base route is drawn without an
  exception, exactly as many as the response has with a geometry that can be drawn.
\<close>

theorem drawRoute_replaces_overlay:
  assumes "reachable s" and "mapInstance s = Some view"
  shows "\<exists>s'. drawRouteOnMap (Some result) s = (Returned, s')
         \<and> (\<forall>u \<in> set (overlay_refs s). u \<notin> set (source_list s'))
         \<and> (\<forall>u \<in> set (rendered RouteLine s' @ rendered TrafficSegment s' @ rendered Incident s').
               u \<notin> set (source_list s))
         \<and> length (rendered TrafficSegment s')
             \<le> length (filter is_traffic_segment (case features result of None \<Rightarrow> [] | Some l \<Rightarrow> l))
         \<and> length (rendered Incident s')
             \<le> length (filter is_traffic_incident (case features result of None \<Rightarrow> [] | Some l \<Rightarrow> l))
         \<and> (base_route_ok (case features result of None \<Rightarrow> [] | Some l \<Rightarrow> l) view s \<longrightarrow>
               length (rendered TrafficSegment s')
                 = length (filter segment_drawable
                     (filter is_traffic_segment (case features result of None \<Rightarrow> [] | Some l \<Rightarrow> l)))
               \<and> length (rendered Incident s')
                 = length (filter incident_drawable
                     (filter is_traffic_incident (case features result of None \<Rightarrow> [] | Some l \<Rightarrow> l))))"
proof -
  define fs where "fs = (case features result of None \<Rightarrow> [] | Some l \<Rightarrow> l)"
  have w: "wf_state s" using assms(1) by (rule reachable_wf)
  then obtain src where v: "vectorSource s = Some src"
    using assms(2) by (auto simp: wf_state_def)
  let ?t = "overlay_removed s"
  let ?s' = "draw_features fs view ?t"
  have rm: "remove_previous_overlay s = (Returned, ?t)"
    using w v by (intro remove_previous_overlay_closed wf_removable) simp_all
  have run: "drawRouteOnMap (Some result) s = (Returned, ?s')"
    using assms(2) v rm by (simp add: drawRouteOnMap_def fs_def)
  have wt: "wf_state ?t" by (rule wf_overlay_removed [OF w])
  have vt: "vectorSource ?t \<noteq> None"
    using v by (simp add: overlay_removed_facts)
  have w': "wf_state ?s'"
    using wt vt by (intro wf_draw_features) (simp_all add: overlay_removed_facts)
  note f = draw_features_facts [OF overlay_removed_facts(1,2) vt, of fs view]
  have fresh: "\<forall>u \<in> set (overlay_refs ?s'). next_uid s \<le> u"
    using f(1) by (simp add: drawn_from_def overlay_removed_facts)
  have old: "\<forall>u \<in> set (source_list s). u < next_uid s"
    using w by (simp add: wf_state_def)
  have markers: "markerFeature ?s' = markerFeature s" "accuracyFeature ?s' = accuracyFeature s"
    "originMarker ?s' = originMarker s" "destinationMarker ?s' = destinationMarker s"
    using f(1) by (simp_all add: drawn_from_def overlay_removed_facts)
  have a: "\<forall>u \<in> set (overlay_refs s). u \<notin> set (source_list ?s')"
  proof
    fix u assume u: "u \<in> set (overlay_refs s)"
    have ts: "tracked s = refs (markerFeature s) @ refs (accuracyFeature s) @ refs (rotatual s)
        @ refs (originMarker s) @ refs (destinationMarker s) @ trafficFeatures s @ incidentFeatures s"
      by (simp add: tracked_def route_refs_def marker_refs_def)
    have d: "distinct (tracked s)" and sub: "set (tracked s) = set (source_list s)"
      using w by (simp_all add: wf_state_def)
    have lt: "u < next_uid s"
      using u old sub unfolding ts overlay_refs_def by auto
    have notm: "u \<notin> set (refs (markerFeature s) @ refs (accuracyFeature s)
        @ refs (originMarker s) @ refs (destinationMarker s))"
      using u d unfolding ts overlay_refs_def by auto
    show "u \<notin> set (source_list ?s')"
    proof
      assume "u \<in> set (source_list ?s')"
      then have "u \<in> set (tracked ?s')"
        using w' by (simp add: wf_state_def)
      then have "u \<in> set (overlay_refs ?s')"
        using notm unfolding tracked_def route_refs_def marker_refs_def overlay_refs_def markers
        by auto
      with fresh have "next_uid s \<le> u" by blast
      with lt show False by simp
    qed
  qed
  have b: "\<forall>u \<in> set (rendered RouteLine ?s' @ rendered TrafficSegment ?s' @ rendered Incident ?s').
      u \<notin> set (source_list s)"
  proof
    fix u assume "u \<in> set (rendered RouteLine ?s' @ rendered TrafficSegment ?s' @ rendered Incident ?s')"
    then have "u \<in> set (overlay_refs ?s')"
      using wf_rendered_sets [OF w'] by (auto simp: overlay_refs_def)
    with fresh have ge: "next_uid s \<le> u" by blast
    show "u \<notin> set (source_list s)"
    proof
      assume "u \<in> set (source_list s)"
      with old have "u < next_uid s" by blast
      with ge show False by simp
    qed
  qed
  have bo: "base_route_ok fs view ?t = base_route_ok fs view s"
    by (simp add: base_route_ok_def overlay_removed_facts split: list.splits)
  note l = wf_rendered_lengths [OF w']
  show ?thesis
    unfolding fs_def [symmetric]
  proof (intro exI [of _ ?s'] conjI impI)
    show "drawRouteOnMap (Some result) s = (Returned, ?s')" by (rule run)
    show "\<forall>u \<in> set (overlay_refs s). u \<notin> set (source_list ?s')" by (rule a)
    show "\<forall>u \<in> set (rendered RouteLine ?s' @ rendered TrafficSegment ?s' @ rendered Incident ?s').
        u \<notin> set (source_list s)" by (rule b)
    show "length (rendered TrafficSegment ?s') \<le> length (filter is_traffic_segment fs)"
      unfolding l by (rule f(2))
    show "length (rendered Incident ?s') \<le> length (filter is_traffic_incident fs)"
      unfolding l by (rule f(3))
  next
    assume "base_route_ok fs view s"
    then have "base_route_ok fs view ?t" by (simp only: bo)
    from f(4) [OF this]
    show "length (rendered TrafficSegment ?s') = length (filter segment_drawable (filter is_traffic_segment fs))"
      unfolding l by (rule conjunct1)
  next
    assume "base_route_ok fs view s"
    then have "base_route_ok fs view ?t" by (simp only: bo)
    from f(4) [OF this]
    show "length (rendered Incident ?s') = length (filter incident_drawable (filter is_traffic_incident fs))"
      unfolding l by (rule conjunct2)
  qed
qed

lemma step_env_fit: "env_fit (step e s) = env_fit s"
proof (cases e)
  case (PositionEv h pos)
  have "env_fit (snd (handlePosition pos force s)) = env_fit s" for force
    by (cases "mapInstance s"; cases "vectorSource s")
       (simp_all add: handlePosition_rejected handlePosition_accepted Let_def located_def
          place_marker_def place_circle_def setGeometry_def split: option.splits)
  with PositionEv show ?thesis by (simp split: option.splits)
next
  case ClearRouteEv
  then show ?thesis using clearRoute_frame [of s] by (simp add: gps_frame_def)
next
  case DrawRouteMarkersEv
  then show ?thesis using drawRouteMarkers_frame [of s] by (simp add: gps_frame_def)
next
  case (DrawRouteEv r)
  then show ?thesis using drawRouteOnMap_frame [of s r] by (simp add: gps_frame_def)
qed (simp_all add: initializeMap_rendercomplete_def getCurrentOnceAndStartWatch_def
      startWatching_def toggleFollowingState_def handleError_def stopWatching_def toggleFollow_def
      Let_def disableFollowOnMapDrag_def centerMapOnCurrentPos_def recentre_def
      split: option.splits)

lemma run_env_fit: "env_fit (run es s) = env_fit s"
  unfolding run_def by (induction es arbitrary: s) (simp_all add: step_env_fit)

lemma example_drawn_facts:
  "reachable example_drawn" "env_fit example_drawn = example_fit"
  "\<exists>view. mapInstance example_drawn = Some view"
proof -
  show "reachable example_drawn"
    unfolding example_drawn_def using example_ready_facts(1) by (rule reachable_run)
  show "env_fit example_drawn = example_fit"
    by (simp add: example_drawn_def example_ready_def run_env_fit initial_state_def)
  have "gps_frame example_ready example_drawn"
    using drawRouteOnMap_frame [of example_ready "Some first_response"]
    by (simp add: example_drawn_def run_def)
  then show "\<exists>view. mapInstance example_drawn = Some view"
    using example_ready_facts(2) by (auto simp: gps_frame_def)
qed

text \<open>
  A response with a route and one traffic segment drawn over a response with two traffic
  segments and an incident: one traffic segment and no incident are rendered afterwards.
\<close>

theorem drawRoute_replaces_overlay_witness:
  "fst (drawRouteOnMap (Some second_response) example_drawn) = Returned
   \<and> length (rendered TrafficSegment (snd (drawRouteOnMap (Some second_response) example_drawn))) = 1
   \<and> length (rendered Incident (snd (drawRouteOnMap (Some second_response) example_drawn))) = 0"
proof -
  obtain view where m: "mapInstance example_drawn = Some view"
    using example_drawn_facts(3) by blast
  have fs: "(case features second_response of None \<Rightarrow> [] | Some l \<Rightarrow> l) = [route_line, segment_a]"
    by (simp add: second_response_def)
  have k: "is_route_feature route_line" "\<not> is_route_feature segment_a"
    "is_traffic_segment segment_a" "\<not> is_traffic_segment route_line"
    "\<not> is_traffic_incident segment_a" "\<not> is_traffic_incident route_line"
    "segment_drawable segment_a"
    by (simp_all add: is_route_feature_def is_traffic_segment_def is_traffic_incident_def
          route_line_def segment_a_def)
  have ok: "base_route_ok [route_line, segment_a] view example_drawn"
    by (simp add: base_route_ok_def k example_drawn_facts(2) example_fit_def) (simp add: route_line_def)
  show ?thesis
    using drawRoute_replaces_overlay [OF example_drawn_facts(1) m, of second_response] ok
    unfolding fs by (auto simp: k simp del: segment_drawable.simps)
qed

text \<open>
  C5 as stated fails: a traffic segment without geometry is counted in the response and
  skipped by the drawing loop, whose body runs inside a \<^verbatim>\<open>try\<close>. The response has one
  traffic segment and the map shows none.
\<close>

theorem drawRoute_counterexample:
  "length (filter is_traffic_segment [segment_without_geometry]) = 1
   \<and> drawRouteOnMap (Some broken_response) example_ready
       = (Returned, snd (drawRouteOnMap (Some broken_response) example_ready))
   \<and> length (rendered TrafficSegment (snd (drawRouteOnMap (Some broken_response) example_ready))) = 0"
proof -
  have r: "removable (overlay_refs example_ready) example_ready"
    and e: "overlay_removed example_ready = example_ready"
    by (simp_all add: removable_def overlay_refs_def overlay_removed_def drop_refs_def
          example_ready_def run_def initial_state_def initializeMap_rendercomplete_def)
  have k: "is_traffic_segment segment_without_geometry" "\<not> is_route_feature segment_without_geometry"
    "\<not> is_traffic_incident segment_without_geometry" "\<not> segment_drawable segment_without_geometry"
    by (simp_all add: is_route_feature_def is_traffic_segment_def is_traffic_incident_def
          segment_without_geometry_def)
  have d: "drawRouteOnMap (Some broken_response) example_ready = (Returned, example_ready)"
    using example_ready_facts(2,3) k
    by (simp add: drawRouteOnMap_def remove_previous_overlay_closed [OF r] e broken_response_def
          draw_features_def drawTrafficSegments_def draw_segment_def Let_def
          del: segment_drawable.simps)
  show ?thesis
    using k(1) by (simp add: d rendered_def source_list_def example_ready_facts)
qed

lemma ready_record:
  "example_ready = (initial_state True True example_fit)
     \<lparr>mapInstance := Some \<lparr>center = fromLonLat (- 46.633309, - 23.55052), zoom = 10\<rparr>,
      vectorSource := Some [], apiBaseUrl := Some ''http://localhost:5000''\<rparr>"
  by (simp add: example_ready_def run_def initial_state_def initializeMap_rendercomplete_def)

lemmas route_flow_defs =
  calculateAndDrawRoute_def calculateAndDrawRoute_ready_def fetchRouteData_def
  fetchRouteData_response_def clearRoute_def drawRouteMarkers_def drawRouteOnMap_def
  remove_previous_overlay_def draw_features_def draw_base_route_def drawTrafficSegments_def
  drawTrafficIncidents_def remove_if_set_def removeFeature_def source_remove_def
  new_feature_def addFeature_def set_view_def url_defined_def Let_def
  is_route_feature_def is_traffic_segment_def is_traffic_incident_def
  no_constraints_def first_route_def second_route_def example_fit_def

section \<open>Overlapping route requests\<close>

text \<open>
  C4. The claim fails on the code: \<^verbatim>\<open>calculateAndDrawRoute\<close>, the current
  \<^verbatim>\<open>window.drawRoute\<close>, and \<^verbatim>\<open>fetchRouteData\<close> keep no record of a request in
  flight. The second request is accepted with the ordinary progress message, clears the
  markers of the first and sends its own request to the server. When the first response
  arrives last, the map ends with the origin and destination markers of the second
  request and the route line of the first.
\<close>

theorem overlapping_requests_interleave:
  "calculateAndDrawRoute (- 46.5, - 23.4) (- 46.8, - 23.7) first_in_flight
     = ([ShowMessage CalculatingRouteByCoordinates Info],
        fst (snd (calculateAndDrawRoute (- 46.5, - 23.4) (- 46.8, - 23.7) first_in_flight)),
        AwaitMapReady (- 46.5, - 23.4) (- 46.8, - 23.7))
   \<and> fst (calculateAndDrawRoute_ready (- 46.5, - 23.4) (- 46.8, - 23.7) no_constraints
            (fst (snd (calculateAndDrawRoute (- 46.5, - 23.4) (- 46.8, - 23.7) first_in_flight))))
       = [FetchRoute (- 46.5, - 23.4) (- 46.8, - 23.7) None]
   \<and> vectorSource both_settled = Some [2, 3, 5]
   \<and> originMarker both_settled = Some 2
   \<and> geom (heap both_settled 2) = PointGeom (fromLonLat (- 46.5, - 23.4))
   \<and> destinationMarker both_settled = Some 3
   \<and> geom (heap both_settled 3) = PointGeom (fromLonLat (- 46.8, - 23.7))
   \<and> rotatual both_settled = Some 5
   \<and> geom (heap both_settled 5) = FromGeoJSON first_route"
  unfolding both_settled_def both_in_flight_def first_in_flight_def ready_record
  by (simp add: route_flow_defs initial_state_def)

text \<open>
  The earlier \<^verbatim>\<open>window.drawRoute\<close> did reject a request made while one was being
  drawn: it logs a warning and changes nothing, and every accepted request sets the flag.
\<close>

lemma legacy_rejects_while_drawing:
  "is_drawing_route s \<Longrightarrow> legacy_drawRoute origemCoord destinoCoord s = ([ConsoleWarn], s, False)"
  by (simp add: legacy_drawRoute_def)

lemma legacy_accepted_sets_flag:
  "\<not> is_drawing_route s \<Longrightarrow> is_drawing_route (fst (snd (legacy_drawRoute origemCoord destinoCoord s)))"
  by (simp add: legacy_drawRoute_def remove_route_def split: option.splits)

text \<open>
  The outcome of the two overlapping requests: the origin marker stands at the origin of
  the second request and the route line is the route of the first response.
\<close>

theorem overlapping_requests_interleave_witness:
  "originMarker both_settled = Some 2
   \<and> geom (heap both_settled 2) = PointGeom (fromLonLat (- 46.5, - 23.4))
   \<and> rotatual both_settled = Some 5
   \<and> geom (heap both_settled 5) = FromGeoJSON first_route"
  using overlapping_requests_interleave by simp

end
